theory Spec2Isabelle
  imports Complex_Main "HOL-Library.Word" "HOL-Library.Multiset"
begin

section \<open>Rasters and typed-array access\<close>

text \<open>
  An encoded image (the base64 PNG strings that the utilities pass around) is modelled by
  the pixel data that \<^verbatim>\<open>getImageData\<close> returns once the image has been decoded and drawn:
  a width, a height and a \<^verbatim>\<open>Uint8ClampedArray\<close> of RGBA bytes, four per pixel, row by row.
\<close>

type_synonym u8 = "8 word"

record raster =
  width :: nat
  height :: nat
  data :: "u8 list"

definition wf_raster :: "raster \<Rightarrow> bool" where
  "wf_raster r \<longleftrightarrow> length (data r) = 4 * width r * height r"

text \<open>
  A JavaScript number in the pixel loops is an integer or \<^verbatim>\<open>NaN\<close>; \<open>None\<close> is \<^verbatim>\<open>NaN\<close>.
  Reading a typed array out of range gives \<^verbatim>\<open>undefined\<close>, which every arithmetic
  operation of the loops turns into \<^verbatim>\<open>NaN\<close>.
\<close>

type_synonym jsnum = "int option"

definition rd :: "u8 list \<Rightarrow> nat \<Rightarrow> jsnum" where
  "rd p i = (if i < length p then Some (uint (p ! i)) else None)"

definition to_u8 :: "jsnum \<Rightarrow> u8" where
  \<comment> \<open>storing into a \<^verbatim>\<open>Uint8ClampedArray\<close>: \<^verbatim>\<open>NaN\<close> becomes 0, other values are clamped\<close>
  "to_u8 v = (case v of None \<Rightarrow> 0 | Some n \<Rightarrow> word_of_int (max 0 (min 255 n)))"

definition js_max :: "jsnum \<Rightarrow> jsnum \<Rightarrow> jsnum" where
  "js_max a b = (case (a, b) of (Some x, Some y) \<Rightarrow> Some (max x y) | _ \<Rightarrow> None)"

definition js_min :: "jsnum \<Rightarrow> jsnum \<Rightarrow> jsnum" where
  "js_min a b = (case (a, b) of (Some x, Some y) \<Rightarrow> Some (min x y) | _ \<Rightarrow> None)"

definition js_sub :: "jsnum \<Rightarrow> jsnum \<Rightarrow> jsnum" where
  "js_sub a b = (case (a, b) of (Some x, Some y) \<Rightarrow> Some (x - y) | _ \<Rightarrow> None)"

definition js_abs :: "jsnum \<Rightarrow> jsnum" where
  "js_abs a = map_option abs a"

section \<open>Reading an image back from a canvas\<close>

text \<open>
  \<^verbatim>\<open>loadImageData\<close> draws the decoded image on a fresh canvas of its size and reads the
  canvas with \<^verbatim>\<open>getImageData\<close>. The bitmap of a 2D canvas is the browser's and is kept in
  premultiplied form: a colour byte \<open>c\<close> with alpha \<open>a\<close> is stored as \<open>c \<times> a / 255\<close> and read
  back as the stored byte times \<open>255 / a\<close>; a pixel with alpha 0 reads back as transparent
  black. So the bytes that the pixel loops read are those of the image where the image is
  opaque, and depend on its alpha elsewhere.
\<close>

definition premultiply :: "u8 \<Rightarrow> u8 \<Rightarrow> u8" where
  \<comment> \<open>Modelled from the spec: \<open>c \<times> a / 255\<close> "rounded to nearest integer" (numeric semantics
      of the compositor); the rounding of the browser's canvas is not part of the
      repository.\<close>
  "premultiply c a = of_nat ((2 * unat c * unat a + 255) div 510)"

definition unpremultiply :: "u8 \<Rightarrow> u8 \<Rightarrow> u8" where
  \<comment> \<open>Modelled from the spec: \<open>c \<times> 255 / a\<close> for \<open>a > 0\<close>, "rounded to nearest integer"
      (a half upwards) and "clamped to [0,255]".\<close>
  "unpremultiply c a = of_nat (min 255 ((510 * unat c + unat a) div (2 * unat a)))"

fun canvas_read :: "u8 list \<Rightarrow> u8 list" where
  "canvas_read (r # g # b # a # ps) =
     (if a = 0 then [0, 0, 0, 0]
      else [unpremultiply (premultiply r a) a, unpremultiply (premultiply g a) a,
            unpremultiply (premultiply b a) a, a]) @ canvas_read ps"
| "canvas_read ps = ps"

definition loadImageData :: "raster \<Rightarrow> raster" where
  "loadImageData img = \<lparr>width = width img, height = height img, data = canvas_read (data img)\<rparr>"

section \<open>Mask operations (imageUtils)\<close>

text \<open>
  The four pairwise operations share one loop,
  \<^verbatim>\<open>for (let i = 0; i < result.data.length; i += 4)\<close>, which computes \<^verbatim>\<open>val\<close> from
  \<^verbatim>\<open>pixels1[i]\<close> and \<^verbatim>\<open>pixels2[i]\<close> and stores it at \<^verbatim>\<open>i\<close>, \<^verbatim>\<open>i + 1\<close>, \<^verbatim>\<open>i + 2\<close>, and 255 at
  \<^verbatim>\<open>i + 3\<close>. The loop is \<open>mask_loop\<close>, with the computation of \<^verbatim>\<open>val\<close> as its first argument.
  A store beyond the end of a typed array is ignored, as \<open>xs[i := v]\<close> is. The loop runs on
  the pixel data that \<^verbatim>\<open>loadImageData\<close> has read for the two masks. Its result has alpha 255
  everywhere, so putting it on the canvas and encoding the canvas keeps every byte.
\<close>

function mask_loop ::
  "(jsnum \<Rightarrow> jsnum \<Rightarrow> jsnum) \<Rightarrow> u8 list \<Rightarrow> u8 list \<Rightarrow> nat \<Rightarrow> u8 list \<Rightarrow> u8 list" where
  "mask_loop f pixels1 pixels2 i res =
     (if i < length res
      then mask_loop f pixels1 pixels2 (i + 4)
             (res[i := to_u8 (f (rd pixels1 i) (rd pixels2 i)),
                  i + 1 := to_u8 (f (rd pixels1 i) (rd pixels2 i)),
                  i + 2 := to_u8 (f (rd pixels1 i) (rd pixels2 i)),
                  i + 3 := 255])
      else res)"
  by pat_completeness auto
termination
  by (relation "measure (\<lambda>(f, p1, p2, i, res). length res - i)") auto

declare mask_loop.simps [simp del]

definition createImageData :: "nat \<Rightarrow> nat \<Rightarrow> u8 list" where
  "createImageData w h = replicate (4 * w * h) 0"

definition combine_pixels :: "(jsnum \<Rightarrow> jsnum \<Rightarrow> jsnum) \<Rightarrow> raster \<Rightarrow> raster \<Rightarrow> raster" where
  \<comment> \<open>the body of an operation after the two masks have been loaded\<close>
  "combine_pixels f data1 data2 =
     \<lparr>width = width data1, height = height data1,
      data = mask_loop f (data data1) (data data2) 0
               (createImageData (width data1) (height data1))\<rparr>"

definition mask_op :: "(jsnum \<Rightarrow> jsnum \<Rightarrow> jsnum) \<Rightarrow> raster \<Rightarrow> raster \<Rightarrow> raster" where
  "mask_op f mask1Base64 mask2Base64 =
     combine_pixels f (loadImageData mask1Base64) (loadImageData mask2Base64)"

definition maskUnion :: "raster \<Rightarrow> raster \<Rightarrow> raster" where
  "maskUnion = mask_op js_max"

definition maskIntersection :: "raster \<Rightarrow> raster \<Rightarrow> raster" where
  "maskIntersection = mask_op js_min"

definition maskSubtract :: "raster \<Rightarrow> raster \<Rightarrow> raster" where
  "maskSubtract = mask_op (\<lambda>a b. js_max (Some 0) (js_sub a b))"

definition maskXor :: "raster \<Rightarrow> raster \<Rightarrow> raster" where
  "maskXor = mask_op (\<lambda>a b. js_abs (js_sub a b))"

datatype mask_error = UnknownMaskOperation string

definition operationFn :: "string \<Rightarrow> (raster \<Rightarrow> raster \<Rightarrow> raster) option" where
  "operationFn operation =
     (if operation = ''union'' then Some maskUnion
      else if operation = ''intersection'' then Some maskIntersection
      else if operation = ''subtract'' then Some maskSubtract
      else if operation = ''xor'' then Some maskXor
      else None)"

text \<open>
  \<^verbatim>\<open>combineMasks\<close>: \<open>Inr None\<close> is the value \<^verbatim>\<open>null\<close>, \<open>Inl\<close> a thrown \<^verbatim>\<open>Error\<close>. The two
  length tests come before the lookup of the operation, as in the source. The lookup is
  that of the four names of the table; a name that is a property inherited from
  \<^verbatim>\<open>Object.prototype\<close>, which the lookup of the source would find, is not modelled (the panel
  passes one of the four names).
\<close>

definition combineMasks :: "raster list \<Rightarrow> string \<Rightarrow> mask_error + raster option" where
  "combineMasks maskBase64Array operation =
     (if length maskBase64Array = 0 then Inr None
      else if length maskBase64Array = 1 then Inr (Some (maskBase64Array ! 0))
      else (case operationFn operation of
              None \<Rightarrow> Inl (UnknownMaskOperation operation)
            | Some opf \<Rightarrow> Inr (Some (foldl opf (maskBase64Array ! 0) (tl maskBase64Array)))))"

text \<open>
  Pixel \<open>k\<close> of a raster occupies the bytes \<open>4k \<dots> 4k + 3\<close> (R, G, B, A). The value of a mask
  at a pixel is its red channel, the only one the mask operations read.
\<close>

definition chan :: "raster \<Rightarrow> nat \<Rightarrow> nat \<Rightarrow> u8" where
  "chan r k c = data r ! (4 * k + c)"

definition mask_val :: "raster \<Rightarrow> nat \<Rightarrow> int" where
  "mask_val r k = uint (chan r k 0)"

definition mask_pixel :: "raster \<Rightarrow> nat \<Rightarrow> int \<Rightarrow> bool" where
  "mask_pixel r k v \<longleftrightarrow>
     uint (chan r k 0) = v \<and> uint (chan r k 1) = v \<and> uint (chan r k 2) = v \<and> chan r k 3 = 255"

definition same_size :: "raster \<Rightarrow> raster \<Rightarrow> bool" where
  "same_size r a \<longleftrightarrow> width r = width a \<and> height r = height a \<and> wf_raster r"


section \<open>Canvas compositing used by extraction and removal (imageUtils)\<close>

text \<open>
  \<^verbatim>\<open>invertMask\<close>: the loop \<^verbatim>\<open>for (let i = 0; i < data.length; i += 4)\<close> replaces the bytes at
  \<^verbatim>\<open>i\<close>, \<^verbatim>\<open>i + 1\<close> and \<^verbatim>\<open>i + 2\<close> by 255 minus their value and leaves \<^verbatim>\<open>i + 3\<close> alone. It runs
  on the pixel data read from the canvas on which the mask has been drawn; the result is put
  back on the canvas with \<^verbatim>\<open>putImageData\<close> and the canvas is encoded, which takes the bytes
  through the premultiplied store once more.
\<close>

function invert_loop :: "nat \<Rightarrow> u8 list \<Rightarrow> u8 list" where
  "invert_loop i d =
     (if i < length d
      then invert_loop (i + 4)
             (d[i := to_u8 (js_sub (Some 255) (rd d i)),
                i + 1 := to_u8 (js_sub (Some 255) (rd d (i + 1))),
                i + 2 := to_u8 (js_sub (Some 255) (rd d (i + 2)))])
      else d)"
  by pat_completeness auto
termination
  by (relation "measure (\<lambda>(i, d). length d - i)") auto

declare invert_loop.simps [simp del]

definition invertMask :: "raster \<Rightarrow> raster" where
  "invertMask maskBase64 =
     (let imageData = loadImageData maskBase64
      in imageData\<lparr>data := canvas_read (invert_loop 0 (data imageData))\<rparr>)"

text \<open>
  The two compositing functions draw the image on a fresh canvas of the image's size, select
  the composite operation \<^verbatim>\<open>destination-in\<close> or \<^verbatim>\<open>destination-out\<close>, and draw the mask over
  it, scaled to the image's size. The canvas is the browser's; its Porter-Duff operators act
  on the alpha channel of the source (the mask) and of the destination (the image):
  \<open>\<alpha>\<^sub>o = \<alpha>\<^sub>b \<times> \<alpha>\<^sub>s\<close> for \<^verbatim>\<open>destination-in\<close>, \<open>\<alpha>\<^sub>o = \<alpha>\<^sub>b \<times> (1 - \<alpha>\<^sub>s)\<close> for \<^verbatim>\<open>destination-out\<close>,
  and the premultiplied colour of the destination is scaled by the same factor.
\<close>

definition mul255 :: "nat \<Rightarrow> nat \<Rightarrow> nat" where
  \<comment> \<open>Modelled from the spec: the product of two alpha values on the scale 0..255, that is
      \<open>a \<times> b / 255\<close> "rounded to nearest integer" (numeric semantics of the compositor); the
      rounding of the browser's canvas is not part of the repository.\<close>
  "mul255 a b = (a * b + 127) div 255"

definition destination_in :: "u8 \<Rightarrow> u8 \<Rightarrow> u8" where
  "destination_in ab as = of_nat (mul255 (unat ab) (unat as))"

definition destination_out :: "u8 \<Rightarrow> u8 \<Rightarrow> u8" where
  "destination_out ab as = of_nat (mul255 (unat ab) (255 - unat as))"

text \<open>
  Compositing a source bitmap over a destination bitmap of the same size, pixel by pixel, with
  the rule \<open>f\<close>, and reading the result: the destination is in the canvas's premultiplied
  store, \<open>f\<close> scales its alpha and its premultiplied colour by the alpha of the source, and the
  colour is read back through the new alpha. A pixel whose alpha becomes 0 reads back as
  transparent black. The source is drawn at the size of the destination, so that it covers
  every pixel; bytes of the destination beyond those of the source would be read as the
  canvas holds them.
\<close>

fun composite :: "(u8 \<Rightarrow> u8 \<Rightarrow> u8) \<Rightarrow> u8 list \<Rightarrow> u8 list \<Rightarrow> u8 list" where
  "composite f (r # g # b # a # dst) (sr # sg # sb # sa # src) =
     (if f a sa = 0 then [0, 0, 0, 0]
      else [unpremultiply (f (premultiply r a) sa) (f a sa),
            unpremultiply (f (premultiply g a) sa) (f a sa),
            unpremultiply (f (premultiply b a) sa) (f a sa),
            f a sa]) @ composite f dst src"
| "composite f dst src = canvas_read dst"

definition scaled :: "(nat \<Rightarrow> nat \<Rightarrow> raster \<Rightarrow> raster) \<Rightarrow> nat \<Rightarrow> nat \<Rightarrow> raster \<Rightarrow> raster" where
  \<comment> \<open>\<^verbatim>\<open>drawImage(img, 0, 0, w, h)\<close>: the image as it is when it has that size already,
      otherwise resampled by the browser's filter \<open>resample\<close>, a parameter\<close>
  "scaled resample w h img =
     (if width img = w \<and> height img = h then img else resample w h img)"

definition applyMaskToImage ::
  "(nat \<Rightarrow> nat \<Rightarrow> raster \<Rightarrow> raster) \<Rightarrow> raster \<Rightarrow> raster \<Rightarrow> bool \<Rightarrow> raster" where
  "applyMaskToImage resample imageImg maskBase64 invert =
     (let finalMask = (if invert then invertMask maskBase64 else maskBase64);
          maskImg = scaled resample (width imageImg) (height imageImg) finalMask
      in \<lparr>width = width imageImg, height = height imageImg,
          data = composite destination_in (data imageImg) (data maskImg)\<rparr>)"

definition removeMaskFromImage ::
  "(nat \<Rightarrow> nat \<Rightarrow> raster \<Rightarrow> raster) \<Rightarrow> raster \<Rightarrow> raster \<Rightarrow> raster" where
  "removeMaskFromImage resample imageImg maskBase64 =
     (let maskImg = scaled resample (width imageImg) (height imageImg) maskBase64
      in \<lparr>width = width imageImg, height = height imageImg,
          data = composite destination_out (data imageImg) (data maskImg)\<rparr>)"

definition opaque :: "raster \<Rightarrow> bool" where
  "opaque r \<longleftrightarrow> (\<forall>k < width r * height r. chan r k 3 = 255)"


section \<open>Layers and the editor store (editorStore)\<close>

text \<open>
  A layer is a JavaScript object; a field that is \<open>None\<close> is a property that is absent
  (\<^verbatim>\<open>undefined\<close>). For \<open>image_base64\<close>, \<open>None\<close> stands for every falsy value (absent, \<^verbatim>\<open>null\<close>
  or the empty string): the code only tests it for truthiness. An object spread with one
  overriding property, \<^verbatim>\<open>{ ...l, order: i }\<close>, is the record update \<open>l\<lparr>order := Some i\<rparr>\<close>.
\<close>

record layer =
  layer_id :: "string option"
  name :: "string option"
  layer_type :: "string option"
  image_base64 :: "raster option"
  visible :: "bool option"
  opacity :: "real option"
  blend_mode :: "string option"
  order :: "int option"

definition empty_object :: layer where
  \<comment> \<open>what \<^verbatim>\<open>{ ...undefined }\<close> is\<close>
  "empty_object = \<lparr>layer_id = None, name = None, layer_type = None, image_base64 = None,
     visible = None, opacity = None, blend_mode = None, order = None\<rparr>"

text \<open>
  The part of the store that the layer operations and the canvas read and write. For the
  ids, \<open>None\<close> stands for \<^verbatim>\<open>undefined\<close> and for \<^verbatim>\<open>null\<close> alike; every layer that the
  application makes has an id.
\<close>

record store =
  layers :: "layer list"
  activeLayerId :: "string option"
  hasUnsavedChanges :: bool
  zoom :: real
  panOffset :: "real \<times> real"

text \<open>
  \<^verbatim>\<open>createWhiteCanvas\<close> fills a canvas with white and encodes it. \<open>createWhiteCanvas\<close> is the
  canvas, and \<open>toDataURL_base64\<close> is the encoding
  \<^verbatim>\<open>canvas.toDataURL('image/png').split(',')[1]\<close> as the value of an image field: for a canvas
  without pixels \<^verbatim>\<open>toDataURL\<close> gives \<^verbatim>\<open>data:,\<close> and the part after the comma is the empty
  string.
\<close>

definition createWhiteCanvas :: "nat \<Rightarrow> nat \<Rightarrow> raster" where
  "createWhiteCanvas w h = \<lparr>width = w, height = h, data = replicate (4 * w * h) 255\<rparr>"

definition toDataURL_base64 :: "raster \<Rightarrow> raster option" where
  "toDataURL_base64 c = (if width c = 0 \<or> height c = 0 then None else Some c)"

definition initialLayer :: layer where
  "initialLayer =
     \<lparr>layer_id = Some ''layer-background'', name = Some ''Background'',
      layer_type = Some ''image'', image_base64 = None, visible = Some True,
      opacity = Some 1, blend_mode = Some ''normal'', order = Some 0\<rparr>"

definition initializeCanvas :: "nat \<Rightarrow> nat \<Rightarrow> store \<Rightarrow> store" where
  "initializeCanvas w h state =
     (if length (layers state) = 0
      then (let whiteCanvas = toDataURL_base64 (createWhiteCanvas w h);
                bgLayer = initialLayer\<lparr>image_base64 := whiteCanvas\<rparr>
            in state\<lparr>layers := [bgLayer], activeLayerId := layer_id bgLayer\<rparr>)
      else state)"

definition addLayer :: "layer \<Rightarrow> store \<Rightarrow> store" where
  "addLayer layer state =
     state\<lparr>layers := layers state @ [layer], activeLayerId := layer_id layer,
           hasUnsavedChanges := True\<rparr>"

definition updateLayer :: "string option \<Rightarrow> (layer \<Rightarrow> layer) \<Rightarrow> store \<Rightarrow> store" where
  \<comment> \<open>\<open>updates\<close> is the effect of \<^verbatim>\<open>{ ...l, ...updates }\<close> on \<open>l\<close>\<close>
  "updateLayer i updates state =
     state\<lparr>layers := map (\<lambda>l. if layer_id l = i then updates l else l) (layers state),
           hasUnsavedChanges := True\<rparr>"

text \<open>
  \<^verbatim>\<open>Array.prototype.splice(start, deleteCount, ...items)\<close> with integer arguments: the pair of
  the removed elements and the array afterwards. A negative start counts from the end.
\<close>

definition actual_start :: "int \<Rightarrow> nat \<Rightarrow> nat" where
  "actual_start start len =
     nat (if start < 0 then max (int len + start) 0 else min start (int len))"

definition splice :: "int \<Rightarrow> nat \<Rightarrow> 'a list \<Rightarrow> 'a list \<Rightarrow> 'a list \<times> 'a list" where
  "splice start deleteCount items xs =
     (let s = actual_start start (length xs);
          c = min deleteCount (length xs - s)
      in (take c (drop s xs), take s xs @ items @ drop (s + c) xs))"

definition first_or_undefined :: "'a option list \<Rightarrow> 'a option" where
  \<comment> \<open>the destructuring \<^verbatim>\<open>const [removed] = \<dots>\<close>\<close>
  "first_or_undefined xs = (case xs of [] \<Rightarrow> None | x # _ \<Rightarrow> x)"

definition spread_obj :: "layer option \<Rightarrow> layer" where
  "spread_obj l = (case l of None \<Rightarrow> empty_object | Some v \<Rightarrow> v)"

definition reorderLayers :: "int \<Rightarrow> int \<Rightarrow> store \<Rightarrow> store" where
  "reorderLayers startIndex endIndex state =
     (let newLayers = map Some (layers state);
          (rem, newLayers) = splice startIndex 1 [] newLayers;
          removed = first_or_undefined rem;
          (_, newLayers) = splice endIndex 0 [removed] newLayers
      in state\<lparr>layers := map (\<lambda>(l, i). (spread_obj l)\<lparr>order := Some (int i)\<rparr>)
                             (zip newLayers [0..<length newLayers]),
               hasUnsavedChanges := True\<rparr>)"

section \<open>The layer panel (LayerPanel)\<close>

text \<open>The decimal digits of a number, for the ids made from \<^verbatim>\<open>Date.now()\<close>.\<close>

fun string_of_nat :: "nat \<Rightarrow> string" where
  "string_of_nat n =
     (if n < 10 then [''0123456789'' ! n]
      else string_of_nat (n div 10) @ [''0123456789'' ! (n mod 10)])"

declare string_of_nat.simps [simp del]


text \<open>
  \<^verbatim>\<open>Array.prototype.sort\<close> is stable. For a comparator that is a consistent ordering the
  result is determined by that: it is the result of a stable insertion sort. The
  comparators subtract two \<open>order\<close> fields; with an absent field the difference is \<^verbatim>\<open>NaN\<close>,
  which \<^verbatim>\<open>sort\<close> treats as 0, and the arrangement is then left to the engine; whatever
  the arrangement, the sorted array is a permutation of the given one.
\<close>

fun js_insert :: "('a \<Rightarrow> 'a \<Rightarrow> int) \<Rightarrow> 'a \<Rightarrow> 'a list \<Rightarrow> 'a list" where
  "js_insert cmp x [] = [x]"
| "js_insert cmp x (y # ys) = (if cmp x y \<le> 0 then x # y # ys else y # js_insert cmp x ys)"

definition js_sort :: "('a \<Rightarrow> 'a \<Rightarrow> int) \<Rightarrow> 'a list \<Rightarrow> 'a list" where
  "js_sort cmp xs = foldr (js_insert cmp) xs []"

definition num_or_zero :: "int option \<Rightarrow> int" where
  "num_or_zero v = (case v of None \<Rightarrow> 0 | Some n \<Rightarrow> n)"

definition by_order_asc :: "layer \<Rightarrow> layer \<Rightarrow> int" where
  \<comment> \<open>\<^verbatim>\<open>(a, b) => a.order - b.order\<close>\<close>
  "by_order_asc a b = num_or_zero (js_sub (order a) (order b))"

definition by_order_desc :: "layer \<Rightarrow> layer \<Rightarrow> int" where
  \<comment> \<open>\<^verbatim>\<open>(a, b) => b.order - a.order\<close>\<close>
  "by_order_desc a b = num_or_zero (js_sub (order b) (order a))"

definition sortedLayers :: "store \<Rightarrow> layer list" where
  "sortedLayers state = js_sort by_order_desc (layers state)"

datatype js_error = TypeError

fun index_of :: "'a list \<Rightarrow> 'a \<Rightarrow> nat" where
  \<comment> \<open>the position of the first occurrence (the length when there is none)\<close>
  "index_of [] y = 0"
| "index_of (x # xs) y = (if x = y then 0 else Suc (index_of xs y))"

definition at_index :: "'a list \<Rightarrow> int \<Rightarrow> 'a option" where
  \<comment> \<open>\<^verbatim>\<open>xs[i]\<close>, \<^verbatim>\<open>undefined\<close> out of range\<close>
  "at_index xs i = (if 0 \<le> i \<and> i < int (length xs) then Some (xs ! nat i) else None)"

definition handleAddLayer :: "nat \<Rightarrow> store \<Rightarrow> store" where
  \<comment> \<open>\<open>now\<close> is \<^verbatim>\<open>Date.now()\<close>; the new layer has the image \<^verbatim>\<open>''\<close>\<close>
  "handleAddLayer now state =
     addLayer \<lparr>layer_id = Some (''layer-'' @ string_of_nat now),
               name = Some (''Layer '' @ string_of_nat (length (layers state) + 1)),
               layer_type = Some ''image'', image_base64 = None, visible = Some True,
               opacity = Some 1, blend_mode = Some ''normal'',
               order = Some (int (length (layers state)))\<rparr> state"

text \<open>
  \<^verbatim>\<open>handleMoveUp\<close> and \<^verbatim>\<open>handleMoveDown\<close>: reading \<^verbatim>\<open>.order\<close> of an element that is
  \<^verbatim>\<open>undefined\<close> throws a \<^verbatim>\<open>TypeError\<close>, before any update of the store.
\<close>

definition swap_orders :: "layer option \<Rightarrow> layer option \<Rightarrow> store \<Rightarrow> js_error + store" where
  "swap_orders currentLayer otherLayer state =
     (case currentLayer of None \<Rightarrow> Inl TypeError
      | Some cur \<Rightarrow>
         (case otherLayer of None \<Rightarrow> Inl TypeError
          | Some other \<Rightarrow>
              Inr (updateLayer (layer_id other) (\<lambda>l. l\<lparr>order := order cur\<rparr>)
                    (updateLayer (layer_id cur) (\<lambda>l. l\<lparr>order := order other\<rparr>) state))))"

definition handleMoveUp :: "int \<Rightarrow> store \<Rightarrow> js_error + store" where
  "handleMoveUp index state =
     (if index > 0
      then swap_orders (at_index (sortedLayers state) index)
             (at_index (sortedLayers state) (index - 1)) state
      else Inr state)"

definition handleMoveDown :: "int \<Rightarrow> store \<Rightarrow> js_error + store" where
  "handleMoveDown index state =
     (if index < int (length (sortedLayers state)) - 1
      then swap_orders (at_index (sortedLayers state) index)
             (at_index (sortedLayers state) (index + 1)) state
      else Inr state)"

text \<open>
  \<^verbatim>\<open>handleDrop\<close>: the \<^verbatim>\<open>forEach\<close> updates the store item by item; reading \<^verbatim>\<open>.id\<close> of an item
  that is \<^verbatim>\<open>undefined\<close> throws, and the updates made before it stay. The result is the store
  together with the error, if one was thrown.
\<close>

fun drop_updates :: "layer option list \<Rightarrow> nat \<Rightarrow> nat \<Rightarrow> store \<Rightarrow> store \<times> js_error option" where
  "drop_updates [] i n state = (state, None)"
| "drop_updates (None # items) i n state = (state, Some TypeError)"
| "drop_updates (Some item # items) i n state =
     drop_updates items (i + 1) n
       (updateLayer (layer_id item) (\<lambda>l. l\<lparr>order := Some (int n - 1 - int i)\<rparr>) state)"

definition handleDrop :: "int option \<Rightarrow> int \<Rightarrow> store \<Rightarrow> store \<times> js_error option" where
  "handleDrop draggedIndex index state =
     (case draggedIndex of None \<Rightarrow> (state, None)
      | Some dragged \<Rightarrow>
          if dragged = index then (state, None)
          else (let items = map Some (sortedLayers state);
                    (rem, items) = splice dragged 1 [] items;
                    draggedItem = first_or_undefined rem;
                    (_, items) = splice index 0 [draggedItem] items
                in drop_updates items 0 (length items) state))"

section \<open>Export of the flattened image (Header)\<close>

text \<open>
  The 2D context of the export canvas: its two drawing-state attributes and its bitmap.
  Assigning an invalid value to either attribute is ignored by the canvas, so the previous
  value stays. The drawing itself, \<^verbatim>\<open>ctx.drawImage(img, 0, 0)\<close> under the current alpha and
  composite operation, is the browser's and is the parameter \<open>drawImage\<close>.
\<close>

record context2d =
  globalAlpha :: real
  globalCompositeOperation :: string
  bitmap :: raster

definition composite_operations :: "string list" where
  "composite_operations =
     [''source-over'', ''source-in'', ''source-out'', ''source-atop'', ''destination-over'',
      ''destination-in'', ''destination-out'', ''destination-atop'', ''lighter'', ''copy'',
      ''xor'', ''multiply'', ''screen'', ''overlay'', ''darken'', ''lighten'', ''color-dodge'',
      ''color-burn'', ''hard-light'', ''soft-light'', ''difference'', ''exclusion'', ''hue'',
      ''saturation'', ''color'', ''luminosity'']"

definition set_globalAlpha :: "real \<Rightarrow> context2d \<Rightarrow> context2d" where
  "set_globalAlpha v ctx = (if 0 \<le> v \<and> v \<le> 1 then ctx\<lparr>globalAlpha := v\<rparr> else ctx)"

definition set_globalCompositeOperation :: "string option \<Rightarrow> context2d \<Rightarrow> context2d" where
  "set_globalCompositeOperation v ctx =
     (case v of None \<Rightarrow> ctx
      | Some s \<Rightarrow> if s \<in> set composite_operations
                  then ctx\<lparr>globalCompositeOperation := s\<rparr> else ctx)"

definition blank_canvas :: "nat \<Rightarrow> nat \<Rightarrow> context2d" where
  "blank_canvas w h =
     \<lparr>globalAlpha = 1, globalCompositeOperation = ''source-over'',
      bitmap = \<lparr>width = w, height = h, data = createImageData w h\<rparr>\<rparr>"

definition export_layer ::
  "(real \<Rightarrow> string \<Rightarrow> raster \<Rightarrow> raster \<Rightarrow> raster) \<Rightarrow> context2d \<Rightarrow> layer \<Rightarrow> context2d" where
  \<comment> \<open>the body of \<^verbatim>\<open>for (const layer of visibleLayers)\<close>\<close>
  "export_layer drawImage ctx layer =
     (case image_base64 layer of
        None \<Rightarrow> ctx
      | Some img \<Rightarrow>
          (let ctx = set_globalAlpha (case opacity layer of None \<Rightarrow> 1 | Some v \<Rightarrow> v) ctx;
               ctx = set_globalCompositeOperation
                       (if blend_mode layer = Some ''normal'' then Some ''source-over''
                        else blend_mode layer) ctx
           in ctx\<lparr>bitmap := drawImage (globalAlpha ctx) (globalCompositeOperation ctx) img
                                (bitmap ctx)\<rparr>))"

text \<open>
  \<^verbatim>\<open>handleExport\<close>: \<open>None\<close> is the early \<^verbatim>\<open>return\<close>, after which no canvas is made and no file
  is downloaded; \<open>Some r\<close> is the raster written to \<^verbatim>\<open>export.png\<close>. The filter keeps the layers
  whose \<^verbatim>\<open>visible\<close> and \<^verbatim>\<open>image_base64\<close> are both truthy, so the first layer has an image.
\<close>

definition handleExport ::
  "(real \<Rightarrow> string \<Rightarrow> raster \<Rightarrow> raster \<Rightarrow> raster) \<Rightarrow> layer list \<Rightarrow> raster option" where
  "handleExport drawImage ls =
     (let visibleLayers =
            js_sort by_order_asc (filter (\<lambda>l. visible l = Some True \<and> image_base64 l \<noteq> None) ls)
      in if length visibleLayers = 0 then None
         else (case image_base64 (visibleLayers ! 0) of
                 None \<Rightarrow> None
               | Some firstImg \<Rightarrow>
                   Some (bitmap (foldl (export_layer drawImage)
                                  (blank_canvas (width firstImg) (height firstImg))
                                  visibleLayers))))"

section \<open>The drawing canvas (Canvas)\<close>

text \<open>
  Coordinates are JavaScript numbers, that is IEEE 754 binary64 values. A finite one is
  modelled by the real number it denotes (the two zeros are not told apart), and \<open>None\<close>
  stands for a non-finite one (\<^verbatim>\<open>NaN\<close> or an infinity). An arithmetic operation of the
  language returns the exact result rounded to the nearest binary64 value, a tie going to the
  value with the even significand: a number of magnitude from \<open>2 ^ e\<close> up to, but not
  including, \<open>2 ^ (e + 1)\<close> is rounded to a multiple of \<open>2 ^ (e - 52)\<close>, where \<open>e\<close> is not taken
  below \<open>-1022\<close> (the subnormal range), and a rounded magnitude of \<open>2 ^ 1024\<close> or more is an
  infinity.
\<close>

type_synonym jsreal = "real option"

definition round_half_even :: "real \<Rightarrow> int" where
  "round_half_even z =
     (let f = \<lfloor>z\<rfloor>
      in if z - of_int f < 1 / 2 then f
         else if 1 / 2 < z - of_int f then f + 1
         else if even f then f else f + 1)"

definition fl64 :: "real \<Rightarrow> jsreal" where
  "fl64 x =
     (if x = 0 then Some 0
      else (let e = max \<lfloor>log 2 \<bar>x\<bar>\<rfloor> (- 1022);
                ulp = 2 powi (e - 52);
                y = of_int (round_half_even (x / ulp)) * ulp
            in if \<bar>y\<bar> < 2 ^ 1024 then Some y else None))"

text \<open>
  The three operations of the coordinate code. An operand that is not finite gives a result
  that is not finite: a difference or a product with \<^verbatim>\<open>NaN\<close> or an infinity is \<^verbatim>\<open>NaN\<close> or an
  infinity, and so is their quotient by a finite number. The divisors of the code (the zoom
  factor and the displayed size) are finite numbers; a division by zero gives \<^verbatim>\<open>NaN\<close> or an
  infinity.
\<close>

definition js_minus :: "jsreal \<Rightarrow> jsreal \<Rightarrow> jsreal" where
  "js_minus a b = (case (a, b) of (Some x, Some y) \<Rightarrow> fl64 (x - y) | _ \<Rightarrow> None)"

definition js_times :: "jsreal \<Rightarrow> jsreal \<Rightarrow> jsreal" where
  "js_times a b = (case (a, b) of (Some x, Some y) \<Rightarrow> fl64 (x * y) | _ \<Rightarrow> None)"

definition js_divide :: "jsreal \<Rightarrow> real \<Rightarrow> jsreal" where
  "js_divide a b = (case a of None \<Rightarrow> None | Some x \<Rightarrow> if b = 0 then None else fl64 (x / b))"

record dom_rect =
  rect_left :: real
  rect_top :: real
  rect_width :: real
  rect_height :: real

record mouse_event =
  clientX :: real
  clientY :: real
  button :: int
  currentTarget :: dom_rect

text \<open>
  \<^verbatim>\<open>getCanvasCoords\<close>: the overlay is given by its drawing-surface size and the rectangle
  that \<^verbatim>\<open>getBoundingClientRect\<close> returns for it; \<open>None\<close> is an overlay reference that is not
  set, for which the function falls back to the rectangle of the event's target. The width
  and the height of a canvas are integers below \<open>2 ^ 32\<close>, which are binary64 values, as the
  coordinates of the event and of the rectangle are.
\<close>

definition getCanvasCoords ::
  "(raster \<times> dom_rect) option \<Rightarrow> real \<times> real \<Rightarrow> real \<Rightarrow> mouse_event \<Rightarrow> jsreal \<times> jsreal" where
  "getCanvasCoords overlay pan_offset zoom_factor e =
     (case overlay of
        None \<Rightarrow>
          (let rect = currentTarget e
           in (js_divide (js_minus (js_minus (Some (clientX e)) (Some (rect_left rect)))
                                   (Some (fst pan_offset))) zoom_factor,
               js_divide (js_minus (js_minus (Some (clientY e)) (Some (rect_top rect)))
                                   (Some (snd pan_offset))) zoom_factor))
      | Some (surface, rect) \<Rightarrow>
          (let scaleX = js_divide (Some (real (width surface))) (rect_width rect);
               scaleY = js_divide (Some (real (height surface))) (rect_height rect)
           in (js_times (js_minus (Some (clientX e)) (Some (rect_left rect))) scaleX,
               js_times (js_minus (Some (clientY e)) (Some (rect_top rect))) scaleY)))"

text \<open>
  For comparison, the formulas of the coordinate mapper evaluated over the real numbers,
  without any rounding, and the numbers that are zero or of a magnitude of at least
  \<open>2 ^ (- 1021)\<close>: far enough from the subnormal range that a rounding keeps the relative
  precision of binary64, also in a product of two roundings of such numbers.
\<close>

definition coordinate_mapper :: "raster \<Rightarrow> dom_rect \<Rightarrow> mouse_event \<Rightarrow> real \<times> real" where
  \<comment> \<open>Modelled from the spec: \<^verbatim>\<open>scaleX = intrinsicWidth / displayedWidth\<close>,
      \<^verbatim>\<open>canvasX = (screenX - rectLeft) * scaleX\<close>, and the same for Y.\<close>
  "coordinate_mapper surface rect e =
     (let scaleX = real (width surface) / rect_width rect;
          scaleY = real (height surface) / rect_height rect
      in ((clientX e - rect_left rect) * scaleX, (clientY e - rect_top rect) * scaleY))"

definition above_subnormal :: "real \<Rightarrow> bool" where
  "above_subnormal x \<longleftrightarrow> x = 0 \<or> 2 powi (- 1021) \<le> \<bar>x\<bar>"

text \<open>
  The state of the component: the store, the selected tool, the overlay (its bitmap, if the
  reference is set, and the rectangle that the layout gives it) and the component's own state.
\<close>

record canvas =
  store :: store
  activeTool :: string
  overlayRef :: "raster option"
  overlayRect :: dom_rect
  canvasSize :: "nat \<times> nat"
  isDragging :: bool
  dragStart :: "jsreal \<times> jsreal"
  isDrawing :: bool
  isErasing :: bool
  startPoint :: "(jsreal \<times> jsreal) option"
  lastPoint :: "(jsreal \<times> jsreal) option"

definition drawing_tools :: "string list" where
  "drawing_tools = [''brush'', ''eraser'', ''rectangle'', ''ellipse'']"

definition clearRect :: "raster \<Rightarrow> raster" where
  \<comment> \<open>\<^verbatim>\<open>ctx.clearRect(0, 0, overlay.width, overlay.height)\<close>\<close>
  "clearRect r = r\<lparr>data := replicate (length (data r)) 0\<rparr>"

definition truthy_id :: "string option \<Rightarrow> bool" where
  "truthy_id i \<longleftrightarrow> (case i of None \<Rightarrow> False | Some s \<Rightarrow> s \<noteq> [])"

definition sketch_layer :: "nat \<Rightarrow> canvas \<Rightarrow> raster \<Rightarrow> layer" where
  \<comment> \<open>the object literal passed to \<^verbatim>\<open>addLayer\<close>; \<open>now\<close> is \<^verbatim>\<open>Date.now()\<close>\<close>
  "sketch_layer now cv base64 =
     \<lparr>layer_id = Some (''layer-'' @ string_of_nat now),
      name = Some (''Sketch ('' @ activeTool cv @ '')''),
      layer_type = Some ''image'',
      image_base64 = Some base64,
      visible = Some True,
      opacity = Some 1,
      blend_mode = Some ''normal'',
      order = Some (int (length (layers (store cv))))\<rparr>"

definition visibleLayers :: "store \<Rightarrow> layer list" where
  "visibleLayers state = js_sort by_order_asc (filter (\<lambda>l. visible l = Some True) (layers state))"

definition between_zero_and :: "jsreal \<Rightarrow> real \<Rightarrow> bool" where
  \<comment> \<open>\<^verbatim>\<open>c >= 0 && c <= hi\<close>; a comparison with \<^verbatim>\<open>NaN\<close> is false\<close>
  "between_zero_and c hi \<longleftrightarrow> (case c of None \<Rightarrow> False | Some v \<Rightarrow> 0 \<le> v \<and> v \<le> hi)"

definition canvas_coords :: "canvas \<Rightarrow> mouse_event \<Rightarrow> jsreal \<times> jsreal" where
  "canvas_coords cv e =
     getCanvasCoords (map_option (\<lambda>surface. (surface, overlayRect cv)) (overlayRef cv))
       (panOffset (store cv)) (zoom (store cv)) e"

text \<open>
  \<^verbatim>\<open>handleMouseDown\<close>. When it starts an erasing session it also starts to load the image of
  the active layer, which is drawn on the overlay once it is loaded; that happens after the
  handler has returned and is not part of the handler's effect.
\<close>

definition handleMouseDown :: "mouse_event \<Rightarrow> canvas \<Rightarrow> canvas" where
  "handleMouseDown e cv =
     (if activeTool cv = ''move'' \<or> button e = 1
      then cv\<lparr>isDragging := True,
              dragStart := (js_minus (Some (clientX e)) (Some (fst (panOffset (store cv)))),
                            js_minus (Some (clientY e)) (Some (snd (panOffset (store cv)))))\<rparr>
      else if activeTool cv = ''select'' \<and> button e = 0
      then (let coords = canvas_coords cv e
            in if between_zero_and (fst coords) (real (fst (canvasSize cv))) \<and>
                  between_zero_and (snd coords) (real (snd (canvasSize cv)))
               then (case find (\<lambda>layer. visible layer = Some True) (rev (visibleLayers (store cv))) of
                       None \<Rightarrow> cv
                     | Some clickedLayer \<Rightarrow>
                         cv\<lparr>store := (store cv)\<lparr>activeLayerId := layer_id clickedLayer\<rparr>\<rparr>)
               else cv)
      else if activeTool cv \<in> set drawing_tools \<and> button e = 0
      then (let xy = canvas_coords cv e;
                cv = cv\<lparr>isDrawing := True, startPoint := Some xy, lastPoint := Some xy\<rparr>
            in case overlayRef cv of
                 None \<Rightarrow> cv
               | Some overlay \<Rightarrow>
                   (let cv = cv\<lparr>overlayRef := Some (clearRect overlay)\<rparr>
                    in if activeTool cv = ''eraser''
                       then (case find (\<lambda>l. layer_id l = activeLayerId (store cv))
                                    (layers (store cv)) of
                               None \<Rightarrow> cv
                             | Some activeLayer \<Rightarrow>
                                 if image_base64 activeLayer \<noteq> None
                                 then cv\<lparr>isErasing := True\<rparr> else cv)
                       else cv))
      else cv)"

definition hasPixels :: "raster \<Rightarrow> bool" where
  \<comment> \<open>\<^verbatim>\<open>data.some(v => v !== 0)\<close>\<close>
  "hasPixels r \<longleftrightarrow> (\<exists>v \<in> set (data r). v \<noteq> 0)"

definition commitDrawing :: "nat \<Rightarrow> canvas \<Rightarrow> canvas" where
  "commitDrawing now cv =
     (case overlayRef cv of
        None \<Rightarrow> cv
      | Some overlay \<Rightarrow>
          if \<not> hasPixels overlay \<and> \<not> isErasing cv then cv
          else (if isErasing cv \<and> truthy_id (activeLayerId (store cv))
                then cv\<lparr>store := updateLayer (activeLayerId (store cv))
                                   (\<lambda>l. l\<lparr>image_base64 := Some overlay\<rparr>) (store cv)\<rparr>
                else cv\<lparr>store := addLayer (sketch_layer now cv overlay) (store cv)\<rparr>)
               \<lparr>overlayRef := Some (clearRect overlay)\<rparr>)"

definition handleMouseUp :: "nat \<Rightarrow> canvas \<Rightarrow> canvas" where
  "handleMouseUp now cv =
     (let cv' = (if isDrawing cv \<and> activeTool cv \<in> set drawing_tools
                 then commitDrawing now cv else cv)
      in cv'\<lparr>isDragging := False, isDrawing := False, isErasing := False,
             startPoint := None, lastPoint := None\<rparr>)"

text \<open>The component binds the same handler to \<^verbatim>\<open>onMouseUp\<close> and to \<^verbatim>\<open>onMouseLeave\<close>.\<close>

datatype pointer_event = MouseUp | MouseLeave

fun end_of_session :: "pointer_event \<Rightarrow> nat \<Rightarrow> canvas \<Rightarrow> canvas" where
  "end_of_session MouseUp now cv = handleMouseUp now cv"
| "end_of_session MouseLeave now cv = handleMouseUp now cv"

section \<open>Example values\<close>

definition white_pixel :: raster where
  "white_pixel = \<lparr>width = 1, height = 1, data = [255, 255, 255, 255]\<rparr>"

definition image_layer :: "string \<Rightarrow> string \<Rightarrow> raster option \<Rightarrow> bool \<Rightarrow> int option \<Rightarrow> layer" where
  "image_layer i n img vis ord =
     \<lparr>layer_id = Some i, name = Some n, layer_type = Some ''image'', image_base64 = img,
      visible = Some vis, opacity = Some 1, blend_mode = Some ''normal'', order = ord\<rparr>"

definition layer_A :: layer where
  "layer_A = image_layer ''layer-a'' ''A'' (Some white_pixel) True (Some 0)"

definition layer_B :: layer where
  "layer_B = image_layer ''layer-b'' ''B'' (Some white_pixel) True (Some 1)"

definition layer_C :: layer where
  "layer_C = image_layer ''layer-c'' ''C'' None True (Some 2)"

definition store_BCA :: store where
  "store_BCA = \<lparr>layers = [layer_B, layer_C, layer_A], activeLayerId = Some ''layer-c'',
     hasUnsavedChanges = False, zoom = 1, panOffset = (0, 0)\<rparr>"

definition empty_store :: store where
  "empty_store = \<lparr>layers = [], activeLayerId = None, hasUnsavedChanges = False,
     zoom = 1, panOffset = (0, 0)\<rparr>"

definition keep_image :: "real \<Rightarrow> string \<Rightarrow> raster \<Rightarrow> raster \<Rightarrow> raster" where
  "keep_image alpha operation img canvas = img"

definition pointer_at :: "real \<Rightarrow> real \<Rightarrow> mouse_event" where
  "pointer_at px py =
     \<lparr>clientX = px, clientY = py, button = 0,
      currentTarget = \<lparr>rect_left = 0, rect_top = 0, rect_width = 800, rect_height = 600\<rparr>\<rparr>"

definition surface_1024_512 :: raster where
  "surface_1024_512 = \<lparr>width = 1024, height = 512, data = createImageData 1024 512\<rparr>"

definition surface_30_20 :: raster where
  "surface_30_20 = \<lparr>width = 30, height = 20, data = createImageData 30 20\<rparr>"

definition clear_pixel :: raster where
  "clear_pixel = \<lparr>width = 1, height = 1, data = [0, 0, 0, 0]\<rparr>"

definition black_pixel :: raster where
  "black_pixel = \<lparr>width = 1, height = 1, data = [0, 0, 0, 255]\<rparr>"

definition drawing_session :: "store \<Rightarrow> string \<Rightarrow> raster \<Rightarrow> bool \<Rightarrow> canvas" where
  "drawing_session st tool overlay erasing =
     \<lparr>store = st, activeTool = tool, overlayRef = Some overlay,
      overlayRect = \<lparr>rect_left = 0, rect_top = 0, rect_width = 1, rect_height = 1\<rparr>,
      canvasSize = (1, 1), isDragging = False, dragStart = (Some 0, Some 0), isDrawing = True,
      isErasing = erasing, startPoint = Some (Some 0, Some 0),
      lastPoint = Some (Some 0, Some 0)\<rparr>"

definition store_new_layer :: store where
  \<comment> \<open>the store after the canvas has been initialised (here with one pixel) and the panel's
      "Add Layer" has been used: the new layer is active and has no image\<close>
  "store_new_layer = handleAddLayer 41 (initializeCanvas 1 1 empty_store)"

definition idle_canvas :: "store \<Rightarrow> string \<Rightarrow> canvas" where
  "idle_canvas st tool =
     \<lparr>store = st, activeTool = tool, overlayRef = Some clear_pixel,
      overlayRect = \<lparr>rect_left = 0, rect_top = 0, rect_width = 1, rect_height = 1\<rparr>,
      canvasSize = (1, 1), isDragging = False, dragStart = (Some 0, Some 0), isDrawing = False,
      isErasing = False, startPoint = None, lastPoint = None\<rparr>"

definition store_A :: store where
  "store_A = \<lparr>layers = [layer_A], activeLayerId = Some ''layer-a'', hasUnsavedChanges = False,
     zoom = 1, panOffset = (0, 0)\<rparr>"

definition no_resample :: "nat \<Rightarrow> nat \<Rightarrow> raster \<Rightarrow> raster" where
  "no_resample w h img = img"

definition opaque_pixel :: raster where
  "opaque_pixel = \<lparr>width = 1, height = 1, data = [10, 20, 30, 255]\<rparr>"

definition soft_mask_pixel :: raster where
  "soft_mask_pixel = \<lparr>width = 1, height = 1, data = [255, 255, 255, 100]\<rparr>"

definition store_gaps :: store where
  \<comment> \<open>three layers whose orders are not contiguous\<close>
  "store_gaps =
     \<lparr>layers = [image_layer ''layer-x'' ''X'' (Some white_pixel) True (Some 5),
                image_layer ''layer-y'' ''Y'' (Some white_pixel) True (Some 9),
                image_layer ''layer-z'' ''Z'' None False (Some 7)],
      activeLayerId = Some ''layer-x'', hasUnsavedChanges = False,
     zoom = 1, panOffset = (0, 0)\<rparr>"

section \<open>Properties of the mask operations\<close>

lemma length_mask_loop: "length (mask_loop f p1 p2 i res) = length res"
  by (induction f p1 p2 i res rule: mask_loop.induct) (subst mask_loop.simps, simp)

lemma nth_mask_loop:
  "4 dvd i \<Longrightarrow> 4 dvd length res \<Longrightarrow> j < length res \<Longrightarrow>
   mask_loop f p1 p2 i res ! j =
     (if j < i then res ! j
      else if j mod 4 = 3 then 255
      else to_u8 (f (rd p1 (j - j mod 4)) (rd p2 (j - j mod 4))))"
proof (induction f p1 p2 i res rule: mask_loop.induct)
  case (1 f p1 p2 i res)
  show ?case
  proof (cases "i < length res")
    case False
    with "1.prems" show ?thesis by (subst mask_loop.simps) simp
  next
    case True
    let ?v = "to_u8 (f (rd p1 i) (rd p2 i))"
    let ?res = "res[i := ?v, i + 1 := ?v, i + 2 := ?v, i + 3 := 255]"
    from "1.prems" True have i3: "i + 3 < length res"
      by (elim dvdE) simp
    have step: "mask_loop f p1 p2 i res = mask_loop f p1 p2 (i + 4) ?res"
      using True by (subst mask_loop.simps) simp
    have IH: "mask_loop f p1 p2 (i + 4) ?res ! j =
      (if j < i + 4 then ?res ! j
       else if j mod 4 = 3 then 255
       else to_u8 (f (rd p1 (j - j mod 4)) (rd p2 (j - j mod 4))))"
      using "1.IH" [OF True] "1.prems" by simp
    consider "j < i" | "j = i" | "j = i + 1" | "j = i + 2" | "j = i + 3" | "i + 4 \<le> j"
      by linarith
    then show ?thesis
    proof cases
      case 1
      then show ?thesis unfolding step IH by simp
    next
      case 2
      with \<open>4 dvd i\<close> have "j mod 4 = 0" by presburger
      with 2 i3 show ?thesis unfolding step IH by simp
    next
      case 3
      with \<open>4 dvd i\<close> have "j mod 4 = 1" by presburger
      with 3 i3 show ?thesis unfolding step IH by simp
    next
      case 4
      with \<open>4 dvd i\<close> have "j mod 4 = 2" by presburger
      with 4 i3 show ?thesis unfolding step IH by simp
    next
      case 5
      with \<open>4 dvd i\<close> have "j mod 4 = 3" by presburger
      with 5 i3 show ?thesis unfolding step IH by simp
    next
      case 6
      then show ?thesis unfolding step IH by simp
    qed
  qed
qed

lemma uint_to_u8: "uint (to_u8 (Some n)) = max 0 (min 255 n)"
proof -
  have "0 \<le> max 0 (min 255 n)" "max 0 (min 255 n) < 2 ^ 8" by simp_all
  then show ?thesis
    by (simp add: to_u8_def uint_word_of_int take_bit_int_eq_self del: max.bounded_iff)
qed

lemma uint_u8_bounds: "0 \<le> uint (x :: u8)" "uint (x :: u8) \<le> 255"
  using uint_lt2p [of x] by simp_all

lemma length_createImageData: "length (createImageData w h) = 4 * w * h"
  by (simp add: createImageData_def)

lemma chan_combine_pixels:
  assumes "k < width a * height a" "c < 4"
  shows "chan (combine_pixels f a b) k c =
    (if c = 3 then 255 else to_u8 (f (rd (data a) (4 * k)) (rd (data b) (4 * k))))"
proof -
  let ?res = "createImageData (width a) (height a)"
  have len: "4 * k + c < length ?res"
    using assms by (simp add: length_createImageData)
  have m: "(4 * k + c) mod 4 = c" "4 * k + c - (4 * k + c) mod 4 = 4 * k"
    using assms(2) by simp_all
  have "mask_loop f (data a) (data b) 0 ?res ! (4 * k + c) =
    (if c = 3 then 255 else to_u8 (f (rd (data a) (4 * k)) (rd (data b) (4 * k))))"
    using nth_mask_loop [of 0 ?res "4 * k + c" f "data a" "data b"] len m
    by (simp add: length_createImageData)
  then show ?thesis by (simp add: chan_def combine_pixels_def)
qed

lemma length_canvas_read: "length (canvas_read d) = length d"
  by (induction d rule: canvas_read.induct) simp_all

lemma size_loadImageData:
  "width (loadImageData m) = width m" "height (loadImageData m) = height m"
  "wf_raster (loadImageData m) = wf_raster m"
  by (simp_all add: loadImageData_def wf_raster_def length_canvas_read)

lemma premultiply_opaque: "premultiply c 255 = c"
proof -
  have "(2 * unat c * 255 + 255) div 510 = unat c" by presburger
  then show ?thesis by (simp add: premultiply_def)
qed

lemma unpremultiply_opaque: "unpremultiply c 255 = c"
proof -
  have "unat c < 2 ^ LENGTH(8)" by (rule unsigned_less)
  then have c: "unat c \<le> 255" by simp
  have "(510 * unat c + 255) div 510 = unat c" by presburger
  then show ?thesis using c by (simp add: unpremultiply_def)
qed

lemma canvas_read_opaque:
  "(\<And>k. 4 * k + 3 < length d \<Longrightarrow> d ! (4 * k + 3) = 255) \<Longrightarrow> canvas_read d = d"
proof (induction d rule: canvas_read.induct)
  case (1 r g b a ps)
  have a: "a = 255"
    using "1.prems" [of 0] by simp
  have "canvas_read ps = ps"
  proof (rule "1.IH")
    fix k assume "4 * k + 3 < length ps"
    then show "ps ! (4 * k + 3) = 255"
      using "1.prems" [of "Suc k"] by (simp add: add.commute)
  qed
  then show ?case
    by (simp add: a premultiply_opaque unpremultiply_opaque)
qed simp_all

lemma loadImageData_opaque:
  assumes "wf_raster m" "opaque m"
  shows "loadImageData m = m"
proof -
  have "canvas_read (data m) = data m"
  proof (rule canvas_read_opaque)
    fix k assume "4 * k + 3 < length (data m)"
    then have "k < width m * height m"
      using assms(1) by (simp add: wf_raster_def)
    then show "data m ! (4 * k + 3) = 255"
      using assms(2) by (simp add: opaque_def chan_def)
  qed
  then show ?thesis by (simp add: loadImageData_def)
qed


lemma chan_mask_op:
  assumes "k < width a * height a" "c < 4"
  shows "chan (mask_op f a b) k c =
    (if c = 3 then 255
     else to_u8 (f (rd (data (loadImageData a)) (4 * k)) (rd (data (loadImageData b)) (4 * k))))"
  using chan_combine_pixels [of k "loadImageData a" c f "loadImageData b"] assms
  by (simp add: mask_op_def size_loadImageData)

lemma rd_in_range:
  "wf_raster r \<Longrightarrow> k < width r * height r \<Longrightarrow> rd (data r) (4 * k) = Some (mask_val r k)"
  by (simp add: rd_def wf_raster_def mask_val_def chan_def)

lemma mask_pixel_mask_op:
  assumes "k < width a * height a"
  shows "mask_pixel (mask_op f a b) k
           (uint (to_u8 (f (rd (data (loadImageData a)) (4 * k))
                           (rd (data (loadImageData b)) (4 * k)))))"
  using chan_mask_op [OF assms, of 0] chan_mask_op [OF assms, of 1]
    chan_mask_op [OF assms, of 2] chan_mask_op [OF assms, of 3]
  by (simp add: mask_pixel_def)





subsection \<open>Empty input of \<^verbatim>\<open>combineMasks\<close>\<close>

text \<open>
  Claim C1 (as amended): for every operation name, \<^verbatim>\<open>combineMasks\<close> called with an empty list
  of masks returns \<^verbatim>\<open>null\<close>; it throws no error, whatever the operation name is, because
  the length test precedes the lookup of the operation.
\<close>

theorem combineMasks_empty_returns_null: "combineMasks [] operation = Inr None"
  by (simp add: combineMasks_def)

text \<open>
  Claim C1 as stated (an explicit error on the empty list, never a \<^verbatim>\<open>null\<close> result) fails:
  for the default operation the call does not throw and its result is \<^verbatim>\<open>null\<close>.
\<close>

theorem combineMasks_empty_counterexample:
  "\<not> isl (combineMasks [] ''union'') \<and> combineMasks [] ''union'' = Inr None"
  by (simp add: combineMasks_def)

subsection \<open>The per-pixel formulas\<close>

text \<open>
  Claim C2: for masks \<open>a\<close> and \<open>b\<close> of equal dimensions (each holding four bytes per pixel),
  every pixel \<open>k\<close> of the result is the gray value given by the formula, stored in R, G and B
  with alpha 255: \<open>max\<close> for union, \<open>min\<close> for intersection, \<open>max 0 (a - b)\<close> for subtract and
  \<open>\<bar>a - b\<bar>\<close> for xor, where the value of a mask at a pixel is the red channel that the
  operation reads for it (the pixel data of \<^verbatim>\<open>loadImageData\<close>); for single-channel masks,
  which have alpha 255, this is the red channel of the mask itself. The result has
  the dimensions of the first operand and four bytes per pixel. The operations are functions
  of their arguments: the source writes only to the fresh \<^verbatim>\<open>ImageData\<close> and to the canvas made
  by \<^verbatim>\<open>loadImageData\<close>, and its inputs are immutable strings.
\<close>

theorem pairwise_mask_formulas:
  assumes "wf_raster a" "same_size b a"
    and k: "k < width a * height a"
  shows "mask_pixel (maskUnion a b) k
           (max (mask_val (loadImageData a) k) (mask_val (loadImageData b) k)) \<and>
         mask_pixel (maskIntersection a b) k
           (min (mask_val (loadImageData a) k) (mask_val (loadImageData b) k)) \<and>
         mask_pixel (maskSubtract a b) k
           (max 0 (mask_val (loadImageData a) k - mask_val (loadImageData b) k)) \<and>
         mask_pixel (maskXor a b) k
           \<bar>mask_val (loadImageData a) k - mask_val (loadImageData b) k\<bar> \<and>
         same_size (maskUnion a b) a \<and> same_size (maskIntersection a b) a \<and>
         same_size (maskSubtract a b) a \<and> same_size (maskXor a b) a \<and>
         (opaque a \<and> opaque b \<longrightarrow>
            mask_pixel (maskUnion a b) k (max (mask_val a k) (mask_val b k)) \<and>
            mask_pixel (maskIntersection a b) k (min (mask_val a k) (mask_val b k)) \<and>
            mask_pixel (maskSubtract a b) k (max 0 (mask_val a k - mask_val b k)) \<and>
            mask_pixel (maskXor a b) k \<bar>mask_val a k - mask_val b k\<bar>)"
proof -
  let ?a = "loadImageData a" and ?b = "loadImageData b"
  have wb: "wf_raster b" "width b = width a" "height b = height a"
    using assms(2) by (simp_all add: same_size_def)
  have ka: "rd (data ?a) (4 * k) = Some (mask_val ?a k)"
    using assms by (simp add: rd_in_range size_loadImageData)
  have kb: "rd (data ?b) (4 * k) = Some (mask_val ?b k)"
    using wb k by (simp add: rd_in_range size_loadImageData)
  have ba: "0 \<le> mask_val ?a k" "mask_val ?a k \<le> 255"
    and bb: "0 \<le> mask_val ?b k" "mask_val ?b k \<le> 255"
    using uint_u8_bounds by (simp_all add: mask_val_def)
  have u: "mask_pixel (maskUnion a b) k (max (mask_val ?a k) (mask_val ?b k))"
    using mask_pixel_mask_op [OF k, of js_max b] ba bb
    by (simp add: maskUnion_def ka kb js_max_def uint_to_u8)
  have i: "mask_pixel (maskIntersection a b) k (min (mask_val ?a k) (mask_val ?b k))"
    using mask_pixel_mask_op [OF k, of js_min b] ba bb
    by (simp add: maskIntersection_def ka kb js_min_def uint_to_u8)
  have s: "mask_pixel (maskSubtract a b) k (max 0 (mask_val ?a k - mask_val ?b k))"
    using mask_pixel_mask_op [OF k, of "\<lambda>a b. js_max (Some 0) (js_sub a b)" b] ba bb
    by (simp add: maskSubtract_def ka kb js_max_def js_sub_def uint_to_u8)
  have x: "mask_pixel (maskXor a b) k \<bar>mask_val ?a k - mask_val ?b k\<bar>"
    using mask_pixel_mask_op [OF k, of "\<lambda>a b. js_abs (js_sub a b)" b] ba bb
    by (simp add: maskXor_def ka kb js_abs_def js_sub_def uint_to_u8)
  have d: "same_size (mask_op f a b) a" for f
    by (simp add: mask_op_def combine_pixels_def same_size_def wf_raster_def length_mask_loop
        length_createImageData size_loadImageData)
  have o: "?a = a \<and> ?b = b" if "opaque a \<and> opaque b"
    using that assms(1) wb(1) by (simp add: loadImageData_opaque)
  show ?thesis
  proof (intro conjI impI)
    assume op: "opaque a \<and> opaque b"
    show "mask_pixel (maskUnion a b) k (max (mask_val a k) (mask_val b k))"
      using u o [OF op] by simp
    show "mask_pixel (maskIntersection a b) k (min (mask_val a k) (mask_val b k))"
      using i o [OF op] by simp
    show "mask_pixel (maskSubtract a b) k (max 0 (mask_val a k - mask_val b k))"
      using s o [OF op] by simp
    show "mask_pixel (maskXor a b) k \<bar>mask_val a k - mask_val b k\<bar>"
      using x o [OF op] by simp
  qed (use u i s x d in \<open>simp_all add: maskUnion_def maskIntersection_def maskSubtract_def
        maskXor_def\<close>)
qed

theorem pairwise_mask_formulas_witness:
  "mask_pixel (maskUnion \<lparr>width = 1, height = 1, data = [200, 200, 200, 255]\<rparr>
                 \<lparr>width = 1, height = 1, data = [100, 100, 100, 255]\<rparr>) 0 200 \<and>
   mask_pixel (maskIntersection \<lparr>width = 1, height = 1, data = [200, 200, 200, 255]\<rparr>
                 \<lparr>width = 1, height = 1, data = [100, 100, 100, 255]\<rparr>) 0 100 \<and>
   mask_pixel (maskSubtract \<lparr>width = 1, height = 1, data = [100, 100, 100, 255]\<rparr>
                 \<lparr>width = 1, height = 1, data = [200, 200, 200, 255]\<rparr>) 0 0 \<and>
   mask_pixel (maskXor \<lparr>width = 1, height = 1, data = [100, 100, 100, 255]\<rparr>
                 \<lparr>width = 1, height = 1, data = [200, 200, 200, 255]\<rparr>) 0 100"
  using pairwise_mask_formulas [of "\<lparr>width = 1, height = 1, data = [200, 200, 200, 255]\<rparr>"
      "\<lparr>width = 1, height = 1, data = [100, 100, 100, 255]\<rparr>" 0]
    pairwise_mask_formulas [of "\<lparr>width = 1, height = 1, data = [100, 100, 100, 255]\<rparr>"
      "\<lparr>width = 1, height = 1, data = [200, 200, 200, 255]\<rparr>" 0]
  by (simp add: wf_raster_def same_size_def mask_val_def chan_def opaque_def)

subsection \<open>Outputs are single-channel masks\<close>




section \<open>Properties of the layer store\<close>

text \<open>
  Claim C4 (as amended): \<^verbatim>\<open>addLayer\<close> appends the layer to the stack exactly as it is given,
  so its \<open>order\<close> is stored unchanged (an order that is not specified stays unspecified: the
  store assigns none, each caller passes an order of its own, \<^verbatim>\<open>layers.length\<close> or, in the
  upload dialog, \<^verbatim>\<open>layers.length + i\<close>), makes the layer's id the
  active layer id and marks the document as changed. It has no failing path.
\<close>

theorem addLayer_appends_as_given:
  "layers (addLayer layer state) = layers state @ [layer] \<and>
   order (last (layers (addLayer layer state))) = order layer \<and>
   activeLayerId (addLayer layer state) = layer_id layer \<and>
   hasUnsavedChanges (addLayer layer state)"
  by (simp add: addLayer_def)

text \<open>
  Claim C4 as stated fails in its second part: a layer added to the empty stack without an
  order does not get the order 0, the layer count.
\<close>

theorem addLayer_order_counterexample:
  "order (last (layers (addLayer (image_layer ''layer-1'' ''Layer 1'' None True None)
      empty_store))) \<noteq> Some (int (length (layers empty_store)))"
  by (simp add: addLayer_def image_layer_def empty_store_def)

section \<open>Properties of the export\<close>

lemma filter_none_visible:
  "\<forall>l \<in> set ls. \<not> (visible l = Some True \<and> image_base64 l \<noteq> None) \<Longrightarrow>
   filter (\<lambda>l. visible l = Some True \<and> image_base64 l \<noteq> None) ls = []"
  by (induction ls) auto

text \<open>
  Claim C6 (as amended): when no layer of the stack is visible with an image, \<^verbatim>\<open>handleExport\<close>
  returns at once: it makes no raster (no canvas is created and no file is downloaded) and it
  does not fail.
\<close>

theorem handleExport_nothing_visible:
  assumes "\<forall>l \<in> set ls. \<not> (visible l = Some True \<and> image_base64 l \<noteq> None)"
  shows "handleExport drawImage ls = None"
  using filter_none_visible [OF assms] by (simp add: handleExport_def js_sort_def)

theorem handleExport_nothing_visible_witness:
  "handleExport keep_image
     [image_layer ''layer-1'' ''Hidden'' (Some white_pixel) False (Some 0),
      image_layer ''layer-2'' ''Empty'' None True (Some 1)] = None"
  using handleExport_nothing_visible [of
     "[image_layer ''layer-1'' ''Hidden'' (Some white_pixel) False (Some 0),
       image_layer ''layer-2'' ''Empty'' None True (Some 1)]" keep_image]
  by (simp add: image_layer_def)

text \<open>
  Claim C6 as stated (a blank raster is returned) fails: for a stack whose only layer is
  hidden the export produces no raster at all.
\<close>

theorem handleExport_blank_counterexample:
  "handleExport keep_image [image_layer ''layer-background'' ''Background''
      (Some white_pixel) False (Some 0)] = None"
  by (simp add: handleExport_def js_sort_def image_layer_def)

section \<open>Properties of the layer panel\<close>

lemma three_layers_cases:
  assumes "length xs = 3" "set xs = {A, B, C}" "A \<noteq> B" "A \<noteq> C" "B \<noteq> C"
  shows "xs \<in> {[A, B, C], [A, C, B], [B, A, C], [B, C, A], [C, A, B], [C, B, A]}"
proof -
  from assms(1) obtain x y z where xs: "xs = [x, y, z]"
    by (auto simp: numeral_3_eq_3 length_Suc_conv)
  have "x \<in> {A, B, C}" "y \<in> {A, B, C}" "z \<in> {A, B, C}"
    using assms(2) xs by auto
  moreover have "A \<in> {x, y, z}" "B \<in> {x, y, z}" "C \<in> {x, y, z}"
    using assms(2) xs by auto
  ultimately show ?thesis
    using assms(3-5) unfolding xs by auto
qed

lemma sorted_three:
  assumes "order A = Some 0" "order B = Some 1" "order C = Some 2"
    and "xs \<in> {[A, B, C], [A, C, B], [B, A, C], [B, C, A], [C, A, B], [C, B, A]}"
  shows "js_sort by_order_desc xs = [C, B, A]"
proof -
  have c: "by_order_desc A B = 1" "by_order_desc A C = 2" "by_order_desc B C = 1"
    "by_order_desc B A = -1" "by_order_desc C A = -2" "by_order_desc C B = -1"
    using assms(1-3) by (simp_all add: by_order_desc_def js_sub_def num_or_zero_def)
  consider "xs = [A, B, C]" | "xs = [A, C, B]" | "xs = [B, A, C]" | "xs = [B, C, A]"
    | "xs = [C, A, B]" | "xs = [C, B, A]"
    using assms(4) by blast
  then show ?thesis
    by cases (simp_all add: js_sort_def c)
qed

text \<open>
  Claim C7: in a stack that holds exactly the layers A (order 0), B (order 1) and C (order 2),
  with distinct ids and in any arrangement of the array, moving B up (it is at index 1 of the
  panel's list, sorted by descending order), or equally moving C down, exchanges the orders of
  B and C and changes nothing else in any layer: A is unchanged, and B and C change in their
  \<open>order\<close> only.
\<close>

theorem move_swaps_two_orders:
  assumes "order A = Some 0" "order B = Some 1" "order C = Some 2"
    and "layer_id A \<noteq> layer_id B" "layer_id A \<noteq> layer_id C" "layer_id B \<noteq> layer_id C"
    and "length (layers state) = 3" "set (layers state) = {A, B, C}"
  shows "handleMoveUp 1 state =
           Inr (state\<lparr>layers := map (\<lambda>l. if l = B then B\<lparr>order := Some 2\<rparr>
                                         else if l = C then C\<lparr>order := Some 1\<rparr> else l)
                                   (layers state),
                      hasUnsavedChanges := True\<rparr>) \<and>
         handleMoveDown 0 state = handleMoveUp 1 state"
proof -
  have ne: "A \<noteq> B" "A \<noteq> C" "B \<noteq> C"
    using assms(4-6) by auto
  have cases: "layers state \<in> {[A, B, C], [A, C, B], [B, A, C], [B, C, A], [C, A, B], [C, B, A]}"
    using three_layers_cases [OF assms(7,8) ne] .
  have sorted: "sortedLayers state = [C, B, A]"
    unfolding sortedLayers_def using sorted_three [OF assms(1-3) cases] .
  have up: "handleMoveUp 1 state =
      Inr (updateLayer (layer_id C) (\<lambda>l. l\<lparr>order := order B\<rparr>)
            (updateLayer (layer_id B) (\<lambda>l. l\<lparr>order := order C\<rparr>) state))"
    by (simp add: handleMoveUp_def sorted swap_orders_def at_index_def)
  have down: "handleMoveDown 0 state =
      Inr (updateLayer (layer_id B) (\<lambda>l. l\<lparr>order := order C\<rparr>)
            (updateLayer (layer_id C) (\<lambda>l. l\<lparr>order := order B\<rparr>) state))"
    by (simp add: handleMoveDown_def sorted swap_orders_def at_index_def)
  let ?g = "\<lambda>l. if l = B then B\<lparr>order := Some 2\<rparr> else if l = C then C\<lparr>order := Some 1\<rparr> else l"
  let ?fB = "\<lambda>l. if layer_id l = layer_id B then l\<lparr>order := order C\<rparr> else l"
  let ?fC = "\<lambda>l. if layer_id l = layer_id C then l\<lparr>order := order B\<rparr> else l"
  have pt: "?fC (?fB l) = ?g l \<and> ?fB (?fC l) = ?g l" if l: "l \<in> {A, B, C}" for l
  proof -
    consider "l = A" | "l = B" | "l = C" using l by blast
    then show ?thesis
    proof cases
      case 1
      then show ?thesis using assms(4-6) ne by simp
    next
      case 2
      then show ?thesis using assms(2,3,6) ne by simp
    next
      case 3
      then show ?thesis using assms(2,3,6) ne by simp
    qed
  qed
  have m: "map ?fC (map ?fB (layers state)) = map ?g (layers state)"
    unfolding map_map by (rule map_cong [OF refl]) (use pt assms(8) in simp)
  have m': "map ?fB (map ?fC (layers state)) = map ?g (layers state)"
    unfolding map_map by (rule map_cong [OF refl]) (use pt assms(8) in simp)
  show ?thesis
    unfolding up down using m m' by (simp add: updateLayer_def)
qed

theorem move_swaps_two_orders_witness:
  "handleMoveUp 1 store_BCA =
     Inr (store_BCA\<lparr>layers := [layer_B\<lparr>order := Some 2\<rparr>, layer_C\<lparr>order := Some 1\<rparr>, layer_A],
                    hasUnsavedChanges := True\<rparr>) \<and>
   handleMoveDown 0 store_BCA = handleMoveUp 1 store_BCA"
proof -
  have "set (layers store_BCA) = {layer_A, layer_B, layer_C}"
    by (auto simp: store_BCA_def)
  moreover have "layer_A \<noteq> layer_B" "layer_A \<noteq> layer_C" "layer_B \<noteq> layer_C"
    by (simp_all add: layer_A_def layer_B_def layer_C_def image_layer_def)
  ultimately show ?thesis
    using move_swaps_two_orders [of layer_A layer_B layer_C store_BCA]
    by (simp add: store_BCA_def layer_A_def layer_B_def layer_C_def image_layer_def)
qed

section \<open>Properties of the coordinate mapping\<close>

subsection \<open>Rounding to binary64\<close>

lemma round_half_even_of_int [simp]: "round_half_even (of_int n) = n"
  by (simp add: round_half_even_def)

lemma powr_powi: "2 powr (of_int k) = (2::real) powi k"
  by (rule powr_real_of_int') simp_all

lemma exponent_bounds:
  assumes "0 < (x::real)"
  shows "2 powi \<lfloor>log 2 x\<rfloor> \<le> x" "x < 2 powi (\<lfloor>log 2 x\<rfloor> + 1)"
proof -
  have "2 powr (of_int \<lfloor>log 2 x\<rfloor>) \<le> x \<and> x < 2 powr (of_int \<lfloor>log 2 x\<rfloor> + 1)"
    using floor_log_eq_powr_iff [of x 2 "\<lfloor>log 2 x\<rfloor>"] assms by simp
  then show "2 powi \<lfloor>log 2 x\<rfloor> \<le> x" "x < 2 powi (\<lfloor>log 2 x\<rfloor> + 1)"
    using powr_powi [of "\<lfloor>log 2 x\<rfloor>"] powr_powi [of "\<lfloor>log 2 x\<rfloor> + 1"] by simp_all
qed

lemma exponent_unique:
  assumes "0 < (x::real)" "2 powi k \<le> x" "x < 2 powi (k + 1)"
  shows "\<lfloor>log 2 x\<rfloor> = k"
proof -
  have "2 powr (of_int k) \<le> x \<and> x < 2 powr (of_int k + 1)"
    using assms powr_powi [of k] powr_powi [of "k + 1"] by simp
  then show ?thesis
    using floor_log_eq_powr_iff [of x 2 k] assms(1) by simp
qed

lemma round_half_even_bounds:
  "of_int (round_half_even z) \<le> z + 1 / 2" "z - 1 / 2 \<le> of_int (round_half_even z)"
  unfolding round_half_even_def Let_def by (auto; linarith)+

lemma round_half_even_mono_int:
  "of_int n \<le> z \<Longrightarrow> n \<le> round_half_even z" "z \<le> of_int n \<Longrightarrow> round_half_even z \<le> n"
proof -
  show "n \<le> round_half_even z" if "of_int n \<le> z"
  proof -
    have "n \<le> \<lfloor>z\<rfloor>" using that by (simp add: le_floor_iff)
    then show ?thesis unfolding round_half_even_def Let_def by auto
  qed
  show "round_half_even z \<le> n" if "z \<le> of_int n"
  proof (cases "z = of_int n")
    case True then show ?thesis by simp
  next
    case False
    then have "z < of_int n" using that by simp
    then have "\<lfloor>z\<rfloor> < n" by (simp add: floor_less_iff)
    then show ?thesis unfolding round_half_even_def Let_def by auto
  qed
qed

lemma fl64_0 [simp]: "fl64 0 = Some 0"
  by (simp add: fl64_def)

lemma fl64_1 [simp]: "fl64 1 = Some 1"
proof -
  have "(1::real) / 2 powi (- 52) = of_int (2 ^ 52)"
    by (simp add: power_int_minus_divide)
  then have "round_half_even (1 / 2 powi (- 52)) = 2 ^ 52"
    by (simp only: round_half_even_of_int)
  then show ?thesis
    by (simp add: fl64_def Let_def power_int_minus_divide)
qed

lemma fl64_nonzero:
  "x \<noteq> 0 \<Longrightarrow> fl64 x =
     (let e = max \<lfloor>log 2 \<bar>x\<bar>\<rfloor> (- 1022);
          ulp = 2 powi (e - 52);
          y = of_int (round_half_even (x / ulp)) * ulp
      in if \<bar>y\<bar> < 2 ^ 1024 then Some y else None)"
  by (simp add: fl64_def)

lemma fl64_of_multiple:
  assumes "y \<noteq> 0" "\<bar>y\<bar> < 2 ^ 1024"
    and "y / 2 powi (max \<lfloor>log 2 \<bar>y\<bar>\<rfloor> (- 1022) - 52) = of_int n"
  shows "fl64 y = Some y"
proof -
  let ?u = "(2::real) powi (max \<lfloor>log 2 \<bar>y\<bar>\<rfloor> (- 1022) - 52)"
  have u: "?u \<noteq> 0" by simp
  have "of_int (round_half_even (y / ?u)) * ?u = of_int n * ?u"
    by (simp only: assms(3) round_half_even_of_int)
  also have "\<dots> = y"
    using assms(3) u by (simp add: field_simps)
  finally show ?thesis
    using assms(1,2) by (simp add: fl64_nonzero Let_def)
qed

lemma fl64_idempotent:
  assumes "fl64 x = Some y"
  shows "fl64 y = Some y"
proof (cases "x = 0 \<or> y = 0")
  case True
  then show ?thesis using assms by auto
next
  case False
  then have x: "x \<noteq> 0" and y0: "y \<noteq> 0" by simp_all
  define e where "e = max \<lfloor>log 2 \<bar>x\<bar>\<rfloor> (- 1022)"
  define u :: real where "u = 2 powi (e - 52)"
  define m where "m = round_half_even (x / u)"
  have u0: "0 < u" by (simp add: u_def)
  have y: "y = of_int m * u" and fin: "\<bar>y\<bar> < 2 ^ 1024"
    using assms x
    by (simp_all add: fl64_nonzero Let_def e_def u_def m_def split: if_splits)
  have e_lo: "- 1022 \<le> e" by (simp add: e_def)
  have "\<bar>x\<bar> < 2 powi (\<lfloor>log 2 \<bar>x\<bar>\<rfloor> + 1)"
    using exponent_bounds(2) [of "\<bar>x\<bar>"] x by simp
  also have "\<dots> \<le> 2 powi (e + 1)"
    by (rule power_int_increasing) (simp_all add: e_def)
  finally have xb: "\<bar>x\<bar> < 2 powi (e + 1)" .
  have split: "(2::real) powi (e + 1) = 2 ^ 53 * u"
  proof -
    have "(2::real) powi (e + 1) = 2 powi (53 + (e - 52))"
      by (rule arg_cong [where f = "\<lambda>k. 2 powi k"]) simp
    also have "\<dots> = 2 powi 53 * 2 powi (e - 52)"
      by (rule power_int_add) simp
    finally show ?thesis by (simp add: u_def)
  qed
  from xb have xb': "\<bar>x\<bar> < 2 ^ 53 * u"
    by (simp only: split)
  have "\<bar>x / u\<bar> = \<bar>x\<bar> / u"
    using u0 by simp
  also have "\<dots> < 2 ^ 53"
    using xb' u0 by (simp add: pos_divide_less_eq)
  finally have "\<bar>x / u\<bar> < 2 ^ 53" .
  then have "x / u \<le> 2 ^ 53" "- (2 ^ 53) \<le> x / u"
    by linarith+
  then have b: "x / u \<le> of_int (2 ^ 53)" "of_int (- (2 ^ 53)) \<le> x / u"
    by simp_all
  have mb: "m \<le> 2 ^ 53" "- (2 ^ 53) \<le> m"
    unfolding m_def
    using round_half_even_mono_int(2) [OF b(1)] round_half_even_mono_int(1) [OF b(2)]
    by simp_all
  have yabs: "\<bar>y\<bar> = of_int \<bar>m\<bar> * u"
    using u0 by (simp add: y abs_mult)
  have ypos: "0 < \<bar>y\<bar>" using y0 by simp
  define e' where "e' = max \<lfloor>log 2 \<bar>y\<bar>\<rfloor> (- 1022)"
  have "\<exists>n. y / 2 powi (e' - 52) = of_int n"
  proof (cases "\<bar>m\<bar> = 2 ^ 53")
    case True
    then have "real_of_int \<bar>m\<bar> = 2 ^ 53"
      by (metis of_int_numeral of_int_power)
    then have ya: "\<bar>y\<bar> = 2 powi (e + 1)"
      by (simp only: yabs split)
    have "\<bar>y\<bar> < 2 powi (e + 1 + 1)"
      unfolding ya by (rule power_int_strict_increasing) simp_all
    then have "\<lfloor>log 2 \<bar>y\<bar>\<rfloor> = e + 1"
      using ya ypos by (intro exponent_unique) simp_all
    then have e': "e' = e + 1"
      using e_lo by (simp add: e'_def)
    have "(2::real) powi (e' - 52) = 2 powi (1 + (e - 52))"
      unfolding e' by (rule arg_cong [where f = "\<lambda>k. 2 powi k"]) simp
    also have "\<dots> = 2 * u"
      unfolding u_def by (subst power_int_add) simp_all
    finally have u': "(2::real) powi (e' - 52) = 2 * u" .
    have yu: "y / (2 * u) = of_int m / 2"
      using u0 by (simp add: y)
    have "\<exists>n. real_of_int m / 2 = of_int n"
    proof -
      have "m = 2 ^ 53 \<or> m = - (2 ^ 53)" using True by linarith
      then show ?thesis
      proof
        assume "m = 2 ^ 53"
        then have "real_of_int m / 2 = of_int (2 ^ 52)" by simp
        then show ?thesis by blast
      next
        assume "m = - (2 ^ 53)"
        then have "real_of_int m / 2 = of_int (- (2 ^ 52))" by simp
        then show ?thesis by blast
      qed
    qed
    then show ?thesis by (simp only: u' yu)
  next
    case False
    then have "\<bar>m\<bar> < 2 ^ 53" using mb by linarith
    then have "real_of_int \<bar>m\<bar> < 2 ^ 53"
      by (metis of_int_less_iff of_int_numeral of_int_power)
    then have "real_of_int \<bar>m\<bar> * u < 2 ^ 53 * u"
      using u0 by simp
    then have ylt: "\<bar>y\<bar> < 2 powi (e + 1)"
      by (simp only: yabs split)
    have "\<lfloor>log 2 \<bar>y\<bar>\<rfloor> \<le> e"
    proof (rule ccontr)
      assume "\<not> \<lfloor>log 2 \<bar>y\<bar>\<rfloor> \<le> e"
      then have "e + 1 \<le> \<lfloor>log 2 \<bar>y\<bar>\<rfloor>" by simp
      then have "(2::real) powi (e + 1) \<le> 2 powi \<lfloor>log 2 \<bar>y\<bar>\<rfloor>"
        by (intro power_int_increasing) simp_all
      also have "\<dots> \<le> \<bar>y\<bar>"
        using exponent_bounds(1) [OF ypos] .
      finally show False using ylt by simp
    qed
    then have le: "e' \<le> e" using e_lo by (simp add: e'_def)
    have "u = 2 powi ((e - e') + (e' - 52))"
      unfolding u_def by (rule arg_cong [where f = "\<lambda>k. 2 powi k"]) simp
    also have "\<dots> = 2 powi (e - e') * 2 powi (e' - 52)"
      by (rule power_int_add) simp
    also have "(2::real) powi (e - e') = 2 ^ nat (e - e')"
      using le by (simp add: power_int_nonneg_exp)
    finally have "u = 2 ^ nat (e - e') * 2 powi (e' - 52)" .
    then have "y / 2 powi (e' - 52) = of_int (m * 2 ^ nat (e - e'))"
      by (simp add: y)
    then show ?thesis by blast
  qed
  then obtain n where "y / 2 powi (e' - 52) = of_int n" by blast
  then show ?thesis
    using y0 fin unfolding e'_def by (rule fl64_of_multiple [rotated 2])
qed

lemma fl64_at_exponent:
  assumes "x \<noteq> 0" "2 powi k \<le> \<bar>x\<bar>" "\<bar>x\<bar> < 2 powi (k + 1)" "- 1022 \<le> k"
  shows "fl64 x =
     (let y = of_int (round_half_even (x / 2 powi (k - 52))) * 2 powi (k - 52)
      in if \<bar>y\<bar> < 2 ^ 1024 then Some y else None)"
proof -
  have "\<lfloor>log 2 \<bar>x\<bar>\<rfloor> = k"
    using assms(1-3) by (intro exponent_unique) simp_all
  then show ?thesis
    using assms(1,4) by (simp add: fl64_nonzero Let_def)
qed

lemma fl64_of_int:
  assumes "\<bar>n\<bar> < 2 ^ 53"
  shows "fl64 (of_int n) = Some (of_int n)"
proof (cases "n = 0")
  case True
  then show ?thesis by simp
next
  case False
  let ?y = "real_of_int n"
  define e where "e = \<lfloor>log 2 \<bar>?y\<bar>\<rfloor>"
  have pos: "0 < \<bar>?y\<bar>" using False by simp
  have "real_of_int \<bar>n\<bar> < 2 ^ 53"
    using assms by (metis of_int_less_iff of_int_numeral of_int_power)
  then have lt: "\<bar>?y\<bar> < 2 powi 53" by simp
  have e_hi: "e \<le> 52"
  proof (rule ccontr)
    assume "\<not> e \<le> 52"
    then have "53 \<le> e" by simp
    then have "(2::real) powi 53 \<le> 2 powi e"
      by (intro power_int_increasing) simp_all
    also have "\<dots> \<le> \<bar>?y\<bar>"
      unfolding e_def using exponent_bounds(1) [OF pos] .
    finally show False using lt by simp
  qed
  have "1 \<le> \<bar>n\<bar>" using False by simp
  then have "1 \<le> \<bar>?y\<bar>" by (metis of_int_abs of_int_1_le_iff)
  then have "0 \<le> log 2 \<bar>?y\<bar>" by simp
  then have e_lo: "0 \<le> e" by (simp add: e_def)
  then have m: "max e (- 1022) = e" by simp
  have "1 = (2::real) powi ((52 - e) + (e - 52))" by simp
  also have "\<dots> = 2 powi (52 - e) * 2 powi (e - 52)"
    by (rule power_int_add) simp
  also have "(2::real) powi (52 - e) = 2 ^ nat (52 - e)"
    using e_hi by (simp add: power_int_nonneg_exp)
  finally have "?y / 2 powi (e - 52) = of_int (n * 2 ^ nat (52 - e))"
    by (simp add: field_simps)
  then have q: "?y / 2 powi (max \<lfloor>log 2 \<bar>?y\<bar>\<rfloor> (- 1022) - 52) = of_int (n * 2 ^ nat (52 - e))"
    using m by (simp only: e_def)
  have fin: "\<bar>?y\<bar> < 2 ^ 1024"
  proof -
    have "(2::real) powi 53 \<le> 2 powi 1024"
      by (intro power_int_increasing) simp_all
    with lt show ?thesis by simp
  qed
  show ?thesis
    by (rule fl64_of_multiple [OF _ fin q]) (use False in simp)
qed

lemma fl64_error:
  assumes "fl64 x = Some y" "x = 0 \<or> 2 powi (- 1022) \<le> \<bar>x\<bar>"
  shows "\<bar>y - x\<bar> \<le> \<bar>x\<bar> / 2 ^ 53"
proof (cases "x = 0")
  case True
  then show ?thesis using assms(1) by simp
next
  case False
  then have lo: "2 powi (- 1022) \<le> \<bar>x\<bar>" using assms(2) by simp
  have pos: "0 < \<bar>x\<bar>" using False by simp
  define e where "e = \<lfloor>log 2 \<bar>x\<bar>\<rfloor>"
  have eb: "2 powi e \<le> \<bar>x\<bar>" "\<bar>x\<bar> < 2 powi (e + 1)"
    unfolding e_def using exponent_bounds [OF pos] by simp_all
  have "- 1022 \<le> e"
  proof (rule ccontr)
    assume "\<not> - 1022 \<le> e"
    then have "e + 1 \<le> - 1022" by simp
    then have "(2::real) powi (e + 1) \<le> 2 powi (- 1022)"
      by (intro power_int_increasing) simp_all
    with eb(2) lo show False by simp
  qed
  then have m: "max \<lfloor>log 2 \<bar>x\<bar>\<rfloor> (- 1022) = e" by (simp add: e_def)
  define u :: real where "u = 2 powi (e - 52)"
  define z where "z = real_of_int (round_half_even (x / u))"
  have u0: "0 < u" by (simp add: u_def)
  have y: "y = z * u"
    using assms(1) False by (simp add: fl64_nonzero m Let_def u_def z_def split: if_splits)
  have "z \<le> x / u + 1 / 2" "x / u - 1 / 2 \<le> z"
    unfolding z_def by (rule round_half_even_bounds)+
  then have "\<bar>z - x / u\<bar> \<le> 1 / 2" by linarith
  then have "\<bar>z - x / u\<bar> * u \<le> 1 / 2 * u"
    using u0 by (intro mult_right_mono) simp_all
  moreover have "\<bar>y - x\<bar> = \<bar>z - x / u\<bar> * u"
  proof -
    have "y - x = (z - x / u) * u" using u0 by (simp add: y field_simps)
    then show ?thesis using u0 by (simp add: abs_mult)
  qed
  ultimately have 1: "\<bar>y - x\<bar> \<le> u / 2" by simp
  have "(2::real) powi e = 2 powi (52 + (e - 52))" by simp
  also have "\<dots> = 2 powi 52 * 2 powi (e - 52)"
    by (rule power_int_add) simp
  finally have "(2::real) powi e = 2 ^ 52 * u" by (simp add: u_def)
  then have "2 ^ 52 * u \<le> \<bar>x\<bar>" using eb(1) by simp
  then have "u / 2 \<le> \<bar>x\<bar> / 2 ^ 53" by simp
  with 1 show ?thesis by linarith
qed

lemma three_roundings:
  fixes a b d s X eps :: real
  assumes eps: "0 \<le> eps" "eps \<le> 1 / 4"
    and d: "\<bar>d - a\<bar> \<le> \<bar>a\<bar> * eps" and s: "\<bar>s - b\<bar> \<le> \<bar>b\<bar> * eps"
    and X: "\<bar>X - d * s\<bar> \<le> \<bar>d * s\<bar> * eps"
  shows "\<bar>X - a * b\<bar> \<le> \<bar>a * b\<bar> * (4 * eps)"
proof -
  define A where "A = \<bar>a\<bar>"
  define B where "B = \<bar>b\<bar>"
  have A0: "0 \<le> A" and B0: "0 \<le> B" by (simp_all add: A_def B_def)
  have sb: "\<bar>s\<bar> \<le> B * (1 + eps)"
    using s by (simp add: B_def algebra_simps)
  have da: "\<bar>d\<bar> \<le> A * (1 + eps)"
    using d by (simp add: A_def algebra_simps)
  have ds: "\<bar>d * s\<bar> \<le> (A * (1 + eps)) * (B * (1 + eps))"
    unfolding abs_mult by (rule mult_mono [OF da sb]) (use A0 eps in simp_all)
  have t1: "\<bar>X - d * s\<bar> \<le> (A * (1 + eps)) * (B * (1 + eps)) * eps"
    using X mult_right_mono [OF ds eps(1)] by linarith
  have "d * s - a * b = (d - a) * s + a * (s - b)" by (simp add: algebra_simps)
  then have "\<bar>d * s - a * b\<bar> \<le> \<bar>d - a\<bar> * \<bar>s\<bar> + \<bar>a\<bar> * \<bar>s - b\<bar>"
    by (metis abs_mult abs_triangle_ineq)
  moreover have "\<bar>d - a\<bar> * \<bar>s\<bar> \<le> (A * eps) * (B * (1 + eps))"
    by (rule mult_mono) (use d sb A0 eps in \<open>simp_all add: A_def\<close>)
  moreover have "\<bar>a\<bar> * \<bar>s - b\<bar> \<le> A * (B * eps)"
    unfolding A_def by (rule mult_left_mono) (use s in \<open>simp_all add: B_def\<close>)
  ultimately have t2: "\<bar>d * s - a * b\<bar> \<le> (A * eps) * (B * (1 + eps)) + A * (B * eps)"
    by linarith
  have "\<bar>X - a * b\<bar> \<le> \<bar>X - d * s\<bar> + \<bar>d * s - a * b\<bar>" by linarith
  also have "\<dots> \<le> (A * (1 + eps)) * (B * (1 + eps)) * eps
      + ((A * eps) * (B * (1 + eps)) + A * (B * eps))"
    using t1 t2 by linarith
  also have "\<dots> = (A * B * eps) * ((1 + eps) * (1 + eps) + (1 + eps) + 1)"
    by (simp add: algebra_simps)
  also have "\<dots> \<le> (A * B * eps) * 4"
  proof (rule mult_left_mono)
    have "(1 + eps) * (1 + eps) \<le> (1 + 1 / 4) * (1 + 1 / 4)"
      by (rule mult_mono) (use eps in simp_all)
    then show "(1 + eps) * (1 + eps) + (1 + eps) + 1 \<le> 4"
      using eps by simp
    show "0 \<le> A * B * eps" using A0 B0 eps by simp
  qed
  finally show ?thesis by (simp add: A_def B_def abs_mult algebra_simps)
qed


lemma product_error:
  assumes a: "fl64 a = Some d" and b: "fl64 b = Some s" and X: "fl64 (d * s) = Some X"
    and na: "a = 0 \<or> 2 powi (- 1022) \<le> \<bar>a\<bar>" and nb: "b = 0 \<or> 2 powi (- 1022) \<le> \<bar>b\<bar>"
    and nab: "a * b = 0 \<or> 2 powi (- 1021) \<le> \<bar>a * b\<bar>"
  shows "\<bar>X - a * b\<bar> \<le> \<bar>a * b\<bar> / 2 ^ 51"
proof -
  define eps :: real where "eps = 1 / 2 ^ 53"
  have eps: "0 \<le> eps" "eps \<le> 1 / 4"
    by (simp_all add: eps_def)
  have d: "\<bar>d - a\<bar> \<le> \<bar>a\<bar> * eps"
    using fl64_error [OF a na] by (simp add: eps_def)
  have s: "\<bar>s - b\<bar> \<le> \<bar>b\<bar> * eps"
    using fl64_error [OF b nb] by (simp add: eps_def)
  have nds: "d * s = 0 \<or> 2 powi (- 1022) \<le> \<bar>d * s\<bar>"
  proof (cases "a * b = 0")
    case True
    then have "d = 0 \<or> s = 0" using a b by auto
    then show ?thesis by auto
  next
    case False
    then have lo: "2 powi (- 1021) \<le> \<bar>a\<bar> * \<bar>b\<bar>"
      using nab by (simp add: abs_mult)
    have "\<bar>a\<bar> * eps \<le> \<bar>a\<bar> * (1 / 4)" "\<bar>b\<bar> * eps \<le> \<bar>b\<bar> * (1 / 4)"
      by (rule mult_left_mono, rule eps, simp)+
    then have da: "\<bar>a\<bar> * (3 / 4) \<le> \<bar>d\<bar>" and sb: "\<bar>b\<bar> * (3 / 4) \<le> \<bar>s\<bar>"
      using d s by linarith+
    have "(\<bar>a\<bar> * (3 / 4)) * (\<bar>b\<bar> * (3 / 4)) \<le> \<bar>d\<bar> * \<bar>s\<bar>"
      by (rule mult_mono [OF da sb]) simp_all
    then have "\<bar>a\<bar> * \<bar>b\<bar> * (9 / 16) \<le> \<bar>d * s\<bar>"
      by (simp add: abs_mult algebra_simps)
    moreover have "\<bar>a\<bar> * \<bar>b\<bar> * (1 / 2) \<le> \<bar>a\<bar> * \<bar>b\<bar> * (9 / 16)"
      by (rule mult_left_mono) simp_all
    moreover have "(2::real) powi (- 1021) = 2 powi (1 + (- 1022))" by simp
    then have "(2::real) powi (- 1021) = 2 * 2 powi (- 1022)"
      by (simp only: power_int_add [of 2 1 "- 1022", simplified])
    ultimately show ?thesis using lo by linarith
  qed
  have X': "\<bar>X - d * s\<bar> \<le> \<bar>d * s\<bar> * eps"
    using fl64_error [OF X nds] by (simp add: eps_def)
  have "\<bar>X - a * b\<bar> \<le> \<bar>a * b\<bar> * (4 * eps)"
    by (rule three_roundings [OF eps d s X'])
  then show ?thesis by (simp add: eps_def)
qed

lemma above_subnormal_normal: "above_subnormal x \<Longrightarrow> x = 0 \<or> 2 powi (- 1022) \<le> \<bar>x\<bar>"
proof -
  have "(2::real) powi (- 1022) \<le> 2 powi (- 1021)"
    by (rule power_int_increasing) simp_all
  then show "above_subnormal x \<Longrightarrow> x = 0 \<or> 2 powi (- 1022) \<le> \<bar>x\<bar>"
    unfolding above_subnormal_def by linarith
qed

lemma above_subnormal_quarter: "1 / 4 \<le> \<bar>x\<bar> \<Longrightarrow> above_subnormal x"
proof -
  have "(2::real) powi (- 1021) \<le> 2 powi (- 2)"
    by (rule power_int_increasing) simp_all
  also have "(2::real) powi (- 2) = 1 / 4"
    by (simp add: power_int_minus_divide)
  finally show "1 / 4 \<le> \<bar>x\<bar> \<Longrightarrow> above_subnormal x"
    unfolding above_subnormal_def by linarith
qed

lemma coordinate_error:
  assumes "js_times (js_minus (Some c) (Some l)) (fl64 b) = Some x"
    and "above_subnormal (c - l)" "above_subnormal b" "above_subnormal ((c - l) * b)"
  shows "\<bar>x - (c - l) * b\<bar> \<le> \<bar>(c - l) * b\<bar> / 2 ^ 51"
proof -
  from assms(1) obtain d s where "fl64 (c - l) = Some d" "fl64 b = Some s" "fl64 (d * s) = Some x"
    by (auto simp: js_times_def js_minus_def split: option.splits)
  then show ?thesis
  proof (rule product_error)
    show "c - l = 0 \<or> 2 powi (- 1022) \<le> \<bar>c - l\<bar>"
      using assms(2) by (rule above_subnormal_normal)
    show "b = 0 \<or> 2 powi (- 1022) \<le> \<bar>b\<bar>"
      using assms(3) by (rule above_subnormal_normal)
    show "(c - l) * b = 0 \<or> 2 powi (- 1021) \<le> \<bar>(c - l) * b\<bar>"
      using assms(4) by (simp only: above_subnormal_def)
  qed
qed

lemma js_times_one: "js_minus a b = c \<Longrightarrow> js_times c (Some 1) = c"
  by (auto simp: js_minus_def js_times_def fl64_idempotent split: option.splits)

lemma js_minus_zero: "js_minus a b = c \<Longrightarrow> js_minus c (Some 0) = c"
  by (auto simp: js_minus_def fl64_idempotent split: option.splits)

lemma js_divide_one: "js_minus a b = c \<Longrightarrow> js_divide c 1 = c"
  by (auto simp: js_minus_def js_divide_def fl64_idempotent split: option.splits)

subsection \<open>The mapping\<close>

text \<open>
  Claim C8: when the overlay is mounted and its displayed width and height are not zero,
  \<^verbatim>\<open>getCanvasCoords\<close> maps a pointer event to
  \<open>((clientX - left) \<times> (width / displayedWidth), (clientY - top) \<times> (height / displayedHeight))\<close>,
  the difference, the quotient and the product being those of the language, each rounded to
  binary64. When the displayed size equals the intrinsic size the result is the offset
  \<open>(clientX - left, clientY - top)\<close> of the pointer from the top-left corner of the surface,
  exactly as the subtraction of the language gives it: the scale is exactly 1 and the
  product with it rounds nothing; this is the offset as a real number whenever that is a
  binary64 value. With zoom 1 and pan (0, 0) the fallback used while the overlay is not
  mounted gives the offset from the corner of the event's target as well. In general a
  finite coordinate differs from the value of the formula over the real numbers by the three
  roundings only, at most the fraction \<open>1 / 2 ^ 51\<close> of that value, when the offset, the scale
  and their product are zero or above the subnormal range.
\<close>

theorem getCanvasCoords_formula:
  assumes "rect_width rect \<noteq> 0" "rect_height rect \<noteq> 0"
  shows "getCanvasCoords (Some (surface, rect)) pan_offset zoom_factor e =
           (js_times (js_minus (Some (clientX e)) (Some (rect_left rect)))
                     (fl64 (real (width surface) / rect_width rect)),
            js_times (js_minus (Some (clientY e)) (Some (rect_top rect)))
                     (fl64 (real (height surface) / rect_height rect))) \<and>
         (rect_width rect = real (width surface) \<and> rect_height rect = real (height surface) \<longrightarrow>
            getCanvasCoords (Some (surface, rect)) pan_offset zoom_factor e =
              (js_minus (Some (clientX e)) (Some (rect_left rect)),
               js_minus (Some (clientY e)) (Some (rect_top rect))) \<and>
            (fl64 (clientX e - rect_left rect) = Some (clientX e - rect_left rect) \<and>
             fl64 (clientY e - rect_top rect) = Some (clientY e - rect_top rect) \<longrightarrow>
               getCanvasCoords (Some (surface, rect)) pan_offset zoom_factor e =
                 (Some (clientX e - rect_left rect), Some (clientY e - rect_top rect)))) \<and>
         getCanvasCoords None (0, 0) 1 e =
           (js_minus (Some (clientX e)) (Some (rect_left (currentTarget e))),
            js_minus (Some (clientY e)) (Some (rect_top (currentTarget e)))) \<and>
         (fst (getCanvasCoords (Some (surface, rect)) pan_offset zoom_factor e) = Some x \<and>
          above_subnormal (clientX e - rect_left rect) \<and>
          above_subnormal (real (width surface) / rect_width rect) \<and>
          above_subnormal (fst (coordinate_mapper surface rect e)) \<longrightarrow>
            \<bar>x - fst (coordinate_mapper surface rect e)\<bar> \<le>
              \<bar>fst (coordinate_mapper surface rect e)\<bar> / 2 ^ 51) \<and>
         (snd (getCanvasCoords (Some (surface, rect)) pan_offset zoom_factor e) = Some y \<and>
          above_subnormal (clientY e - rect_top rect) \<and>
          above_subnormal (real (height surface) / rect_height rect) \<and>
          above_subnormal (snd (coordinate_mapper surface rect e)) \<longrightarrow>
            \<bar>y - snd (coordinate_mapper surface rect e)\<bar> \<le>
              \<bar>snd (coordinate_mapper surface rect e)\<bar> / 2 ^ 51)"
proof -
  have formula: "getCanvasCoords (Some (surface, rect)) pan_offset zoom_factor e =
      (js_times (js_minus (Some (clientX e)) (Some (rect_left rect)))
                (fl64 (real (width surface) / rect_width rect)),
       js_times (js_minus (Some (clientY e)) (Some (rect_top rect)))
                (fl64 (real (height surface) / rect_height rect)))"
    using assms by (simp add: getCanvasCoords_def js_divide_def Let_def)
  have same: "getCanvasCoords (Some (surface, rect)) pan_offset zoom_factor e =
      (js_minus (Some (clientX e)) (Some (rect_left rect)),
       js_minus (Some (clientY e)) (Some (rect_top rect)))"
    if "rect_width rect = real (width surface) \<and> rect_height rect = real (height surface)"
  proof -
    have "real (width surface) / rect_width rect = 1" "real (height surface) / rect_height rect = 1"
      using that assms by simp_all
    then show ?thesis
      by (simp only: formula fl64_1 js_times_one [OF refl])
  qed
  have fallback: "getCanvasCoords None (0, 0) 1 e =
      (js_minus (Some (clientX e)) (Some (rect_left (currentTarget e))),
       js_minus (Some (clientY e)) (Some (rect_top (currentTarget e))))"
    by (simp add: getCanvasCoords_def Let_def js_minus_zero [OF refl] js_divide_one [OF refl])
  have exact: "getCanvasCoords (Some (surface, rect)) pan_offset zoom_factor e =
      (Some (clientX e - rect_left rect), Some (clientY e - rect_top rect))"
    if "rect_width rect = real (width surface) \<and> rect_height rect = real (height surface)"
      and "fl64 (clientX e - rect_left rect) = Some (clientX e - rect_left rect) \<and>
        fl64 (clientY e - rect_top rect) = Some (clientY e - rect_top rect)"
    using that(2) by (simp add: same [OF that(1)] js_minus_def)
  have ex: "\<bar>x - fst (coordinate_mapper surface rect e)\<bar> \<le>
      \<bar>fst (coordinate_mapper surface rect e)\<bar> / 2 ^ 51"
    if "fst (getCanvasCoords (Some (surface, rect)) pan_offset zoom_factor e) = Some x \<and>
      above_subnormal (clientX e - rect_left rect) \<and>
      above_subnormal (real (width surface) / rect_width rect) \<and>
      above_subnormal (fst (coordinate_mapper surface rect e))"
    using that coordinate_error [of "clientX e" "rect_left rect"
        "real (width surface) / rect_width rect" x]
    by (simp add: formula coordinate_mapper_def Let_def)
  have ey: "\<bar>y - snd (coordinate_mapper surface rect e)\<bar> \<le>
      \<bar>snd (coordinate_mapper surface rect e)\<bar> / 2 ^ 51"
    if "snd (getCanvasCoords (Some (surface, rect)) pan_offset zoom_factor e) = Some y \<and>
      above_subnormal (clientY e - rect_top rect) \<and>
      above_subnormal (real (height surface) / rect_height rect) \<and>
      above_subnormal (snd (coordinate_mapper surface rect e))"
    using that coordinate_error [of "clientY e" "rect_top rect"
        "real (height surface) / rect_height rect" y]
    by (simp add: formula coordinate_mapper_def Let_def)
  from formula same exact fallback ex ey show ?thesis
    by blast
qed

theorem getCanvasCoords_formula_witness:
  "getCanvasCoords
     (Some (surface_30_20, \<lparr>rect_left = 0, rect_top = 0, rect_width = 87, rect_height = 20\<rparr>))
     (7, 9) 2 (pointer_at 87 10) = (Some (30 + 1 / 2 ^ 48), Some 10) \<and>
   coordinate_mapper surface_30_20
     \<lparr>rect_left = 0, rect_top = 0, rect_width = 87, rect_height = 20\<rparr> (pointer_at 87 10) =
     (30, 10) \<and>
   \<bar>30 + 1 / 2 ^ 48 -
      fst (coordinate_mapper surface_30_20
             \<lparr>rect_left = 0, rect_top = 0, rect_width = 87, rect_height = 20\<rparr>
             (pointer_at 87 10))\<bar> \<le> 30 / 2 ^ 51 \<and>
   getCanvasCoords
     (Some (surface_1024_512,
            \<lparr>rect_left = 10, rect_top = 20, rect_width = 1024, rect_height = 512\<rparr>))
     (0, 0) 1 (pointer_at 110 70) = (Some 100, Some 50)"
proof -
  let ?r = "\<lparr>rect_left = 0, rect_top = 0, rect_width = 87, rect_height = 20\<rparr>"
  let ?q = "\<lparr>rect_left = 10, rect_top = 20, rect_width = 1024, rect_height = 512\<rparr>"
  have n: "fl64 87 = Some 87" "fl64 10 = Some 10" "fl64 100 = Some 100" "fl64 50 = Some 50"
    using fl64_of_int [of 87] fl64_of_int [of 10] fl64_of_int [of 100] fl64_of_int [of 50]
    by simp_all
  have "round_half_even (30 / 87 / 2 powi (- 2 - 52)) = 6211861554993788"
    by (simp add: round_half_even_def Let_def)
  then have s: "fl64 (30 / 87) = Some (6211861554993788 / 2 ^ 54)"
    using fl64_at_exponent [of "30 / 87" "- 2"] by (simp add: Let_def)
  have "round_half_even (87 * (6211861554993788 / 2 ^ 54) / 2 powi (4 - 52)) = 8444249301319681"
    by (simp add: round_half_even_def Let_def)
  then have p: "fl64 (87 * (6211861554993788 / 2 ^ 54)) = Some (30 + 1 / 2 ^ 48)"
    using fl64_at_exponent [of "87 * (6211861554993788 / 2 ^ 54)" 4] by (simp add: Let_def)
  have m: "coordinate_mapper surface_30_20 ?r (pointer_at 87 10) = (30, 10)"
    by (simp add: coordinate_mapper_def surface_30_20_def pointer_at_def)
  have a: "above_subnormal (87 - 0)" "above_subnormal (30 / 87)" "above_subnormal 30"
    by (rule above_subnormal_quarter, simp)+
  note t = getCanvasCoords_formula [of ?r surface_30_20 "(7, 9)" 2 "pointer_at 87 10"
      "30 + 1 / 2 ^ 48" 10]
  have c: "getCanvasCoords (Some (surface_30_20, ?r)) (7, 9) 2 (pointer_at 87 10) =
      (Some (30 + 1 / 2 ^ 48), Some 10)"
    using t n s p
    by (simp add: surface_30_20_def pointer_at_def js_minus_def js_times_def)
  have b: "\<bar>30 + 1 / 2 ^ 48 - fst (coordinate_mapper surface_30_20 ?r (pointer_at 87 10))\<bar>
      \<le> 30 / 2 ^ 51"
    using t a by (simp add: c m)
  have i: "getCanvasCoords (Some (surface_1024_512, ?q)) (0, 0) 1 (pointer_at 110 70) =
      (Some 100, Some 50)"
    using getCanvasCoords_formula [of ?q surface_1024_512 "(0, 0)" 1 "pointer_at 110 70"
        100 50] n
    by (simp add: surface_1024_512_def pointer_at_def js_minus_def js_times_def)
  from c m b i show ?thesis by simp
qed

section \<open>Properties of the drawing overlay\<close>

text \<open>
  Claim C5 (as amended): when a drawing session with the tool brush, eraser, rectangle or
  ellipse ends, by the release of the pointer or by the pointer leaving the canvas, with the
  overlay mounted, the overlay is committed if and only if the erasing flag is set or the
  overlay buffer holds a non-zero byte. A commit with the erasing flag set and an active
  layer id puts the overlay's content in place of the image of the active layer; any other
  commit appends a new layer named \<^verbatim>\<open>Sketch (tool)\<close> that holds the overlay's content, at
  the end of the layer list with the number of layers as its order, and makes it the active
  layer. After a commit the overlay buffer is cleared; without a commit the store and the
  overlay are unchanged. In each case the session is over. Pointer-down sets the erasing flag
  exactly when it starts a session with the eraser (left button, overlay mounted) and the
  active layer exists and has an image.
\<close>

theorem session_end_commit:
  assumes "isDrawing cv" "activeTool cv \<in> set drawing_tools" "overlayRef cv = Some overlay"
  shows
    "(\<not> isErasing cv \<and> \<not> hasPixels overlay \<longrightarrow>
        store (end_of_session ev now cv) = store cv \<and>
        overlayRef (end_of_session ev now cv) = Some overlay) \<and>
     (isErasing cv \<and> truthy_id (activeLayerId (store cv)) \<longrightarrow>
        layers (store (end_of_session ev now cv)) =
          map (\<lambda>l. if layer_id l = activeLayerId (store cv)
                    then l\<lparr>image_base64 := Some overlay\<rparr> else l) (layers (store cv)) \<and>
        activeLayerId (store (end_of_session ev now cv)) = activeLayerId (store cv) \<and>
        overlayRef (end_of_session ev now cv) = Some (clearRect overlay)) \<and>
     ((isErasing cv \<or> hasPixels overlay) \<and>
      \<not> (isErasing cv \<and> truthy_id (activeLayerId (store cv))) \<longrightarrow>
        layers (store (end_of_session ev now cv)) =
          layers (store cv) @ [sketch_layer now cv overlay] \<and>
        activeLayerId (store (end_of_session ev now cv)) = layer_id (sketch_layer now cv overlay) \<and>
        overlayRef (end_of_session ev now cv) = Some (clearRect overlay)) \<and>
     name (sketch_layer now cv overlay) = Some (''Sketch ('' @ activeTool cv @ '')'') \<and>
     image_base64 (sketch_layer now cv overlay) = Some overlay \<and>
     order (sketch_layer now cv overlay) = Some (int (length (layers (store cv)))) \<and>
     \<not> hasPixels (clearRect overlay) \<and>
     \<not> isDrawing (end_of_session ev now cv) \<and>
     (\<not> isErasing cv0 \<longrightarrow>
        isErasing (handleMouseDown e cv0) =
          (activeTool cv0 = ''eraser'' \<and> button e = 0 \<and> overlayRef cv0 \<noteq> None \<and>
           (\<exists>l. find (\<lambda>l. layer_id l = activeLayerId (store cv0)) (layers (store cv0)) = Some l \<and>
                image_base64 l \<noteq> None)))"
proof -
  have e: "end_of_session ev now cv = handleMouseUp now cv"
    by (cases ev) simp_all
  have c: "\<not> hasPixels (clearRect overlay)"
    by (simp add: hasPixels_def clearRect_def)
  have up: "(\<not> isErasing cv \<and> \<not> hasPixels overlay \<longrightarrow>
        store (handleMouseUp now cv) = store cv \<and>
        overlayRef (handleMouseUp now cv) = Some overlay) \<and>
     (isErasing cv \<and> truthy_id (activeLayerId (store cv)) \<longrightarrow>
        layers (store (handleMouseUp now cv)) =
          map (\<lambda>l. if layer_id l = activeLayerId (store cv)
                    then l\<lparr>image_base64 := Some overlay\<rparr> else l) (layers (store cv)) \<and>
        activeLayerId (store (handleMouseUp now cv)) = activeLayerId (store cv) \<and>
        overlayRef (handleMouseUp now cv) = Some (clearRect overlay)) \<and>
     ((isErasing cv \<or> hasPixels overlay) \<and>
      \<not> (isErasing cv \<and> truthy_id (activeLayerId (store cv))) \<longrightarrow>
        layers (store (handleMouseUp now cv)) =
          layers (store cv) @ [sketch_layer now cv overlay] \<and>
        activeLayerId (store (handleMouseUp now cv)) = layer_id (sketch_layer now cv overlay) \<and>
        overlayRef (handleMouseUp now cv) = Some (clearRect overlay)) \<and>
     \<not> isDrawing (handleMouseUp now cv)"
    using assms
    by (simp add: handleMouseUp_def commitDrawing_def updateLayer_def addLayer_def)
  have sk: "name (sketch_layer now cv overlay) = Some (''Sketch ('' @ activeTool cv @ '')'') \<and>
     image_base64 (sketch_layer now cv overlay) = Some overlay \<and>
     order (sketch_layer now cv overlay) = Some (int (length (layers (store cv))))"
    by (simp add: sketch_layer_def)
  have down: "isErasing (handleMouseDown e cv0) =
          (activeTool cv0 = ''eraser'' \<and> button e = 0 \<and> overlayRef cv0 \<noteq> None \<and>
           (\<exists>l. find (\<lambda>l. layer_id l = activeLayerId (store cv0)) (layers (store cv0)) = Some l \<and>
                image_base64 l \<noteq> None))"
    if "\<not> isErasing cv0"
    using that
    by (auto simp: handleMouseDown_def drawing_tools_def Let_def
        split: option.splits)
  show ?thesis
    unfolding e using up sk c down by blast
qed

theorem session_end_commit_witness:
  "layers (store (end_of_session MouseLeave 42
       (drawing_session store_A ''rectangle'' black_pixel False))) =
     [layer_A,
      \<lparr>layer_id = Some ''layer-42'', name = Some ''Sketch (rectangle)'',
       layer_type = Some ''image'', image_base64 = Some black_pixel, visible = Some True,
       opacity = Some 1, blend_mode = Some ''normal'', order = Some 1\<rparr>] \<and>
   layers (store (end_of_session MouseUp 42
       (drawing_session store_A ''eraser'' clear_pixel True))) =
     [layer_A\<lparr>image_base64 := Some clear_pixel\<rparr>] \<and>
   store (end_of_session MouseUp 42
       (drawing_session store_A ''brush'' clear_pixel False)) = store_A \<and>
   isErasing (handleMouseDown (pointer_at 0 0) (idle_canvas store_A ''eraser''))"
proof -
  have s: "string_of_nat 42 = ''42''"
    by (simp add: string_of_nat.simps [of 42] string_of_nat.simps [of 4])
  have f: "find (\<lambda>l. layer_id l = activeLayerId (store (idle_canvas store_A ''eraser'')))
      (layers (store (idle_canvas store_A ''eraser''))) = Some layer_A"
    by (simp add: idle_canvas_def store_A_def layer_A_def image_layer_def)
  have er: "isErasing (handleMouseDown (pointer_at 0 0) (idle_canvas store_A ''eraser''))"
    using session_end_commit [of "drawing_session store_A ''rectangle'' black_pixel False"
        black_pixel MouseLeave 42 "idle_canvas store_A ''eraser''" "pointer_at 0 0"] f
    by (simp add: drawing_session_def drawing_tools_def)
      (simp add: idle_canvas_def pointer_at_def layer_A_def image_layer_def)
  show ?thesis
    using session_end_commit [of "drawing_session store_A ''rectangle'' black_pixel False"
        black_pixel MouseLeave 42 "idle_canvas store_A ''eraser''" "pointer_at 0 0"]
      session_end_commit [of "drawing_session store_A ''eraser'' clear_pixel True"
        clear_pixel MouseUp 42 "idle_canvas store_A ''eraser''" "pointer_at 0 0"]
      session_end_commit [of "drawing_session store_A ''brush'' clear_pixel False"
        clear_pixel MouseUp 42 "idle_canvas store_A ''eraser''" "pointer_at 0 0"] er
    by (simp add: drawing_session_def store_A_def drawing_tools_def hasPixels_def
        black_pixel_def clear_pixel_def truthy_id_def sketch_layer_def s layer_A_def
        image_layer_def)
qed

text \<open>
  Claim C5 as stated (the eraser always commits, and the commit overwrites the raster of the
  active layer with the overlay's content) fails. After the canvas has been initialised and
  the panel's "Add Layer" has been used, the active layer is the new layer, which has no
  image. Pointer-down with the eraser starts a drawing session but does not set the erasing
  flag for such a layer; pointer-up then leaves the store as it is, the layer still without
  an image, where the claim puts the (blank) content of the overlay into the layer.
\<close>

theorem eraser_session_counterexample:
  "activeTool (handleMouseDown (pointer_at 0 0) (idle_canvas store_new_layer ''eraser'')) =
     ''eraser'' \<and>
   isDrawing (handleMouseDown (pointer_at 0 0) (idle_canvas store_new_layer ''eraser'')) \<and>
   store (end_of_session MouseUp 42
       (handleMouseDown (pointer_at 0 0) (idle_canvas store_new_layer ''eraser''))) =
     store_new_layer \<and>
   activeLayerId store_new_layer = Some ''layer-41'' \<and>
   map (\<lambda>l. (layer_id l, image_base64 l)) (layers store_new_layer) =
     [(Some ''layer-background'', Some (createWhiteCanvas 1 1)), (Some ''layer-41'', None)]"
proof -
  have s: "string_of_nat 41 = ''41''"
    by (simp add: string_of_nat.simps [of 41] string_of_nat.simps [of 4])
  have "string_of_nat 2 = ''2''"
    by (simp add: string_of_nat.simps [of 2])
  then have s2: "string_of_nat (Suc (Suc 0)) = ''2''"
    by (simp only: numeral_2_eq_2)
  have st: "store_new_layer =
      \<lparr>layers = [initialLayer\<lparr>image_base64 := Some (createWhiteCanvas 1 1)\<rparr>,
                 \<lparr>layer_id = Some ''layer-41'', name = Some ''Layer 2'',
                  layer_type = Some ''image'', image_base64 = None, visible = Some True,
                  opacity = Some 1, blend_mode = Some ''normal'', order = Some 1\<rparr>],
       activeLayerId = Some ''layer-41'', hasUnsavedChanges = True, zoom = 1,
       panOffset = (0, 0)\<rparr>"
    by (simp add: store_new_layer_def handleAddLayer_def initializeCanvas_def empty_store_def
        addLayer_def s s2 initialLayer_def toDataURL_base64_def createWhiteCanvas_def)
  have d: "handleMouseDown (pointer_at 0 0) (idle_canvas store_new_layer ''eraser'') =
      (idle_canvas store_new_layer ''eraser'')
        \<lparr>isDrawing := True, startPoint := Some (Some 0, Some 0),
         lastPoint := Some (Some 0, Some 0)\<rparr>"
    unfolding st
    by (simp add: handleMouseDown_def idle_canvas_def pointer_at_def drawing_tools_def
        canvas_coords_def getCanvasCoords_def js_divide_def js_minus_def js_times_def
        clear_pixel_def clearRect_def initialLayer_def Let_def)
  show ?thesis
    unfolding d
    by (simp add: st idle_canvas_def handleMouseUp_def commitDrawing_def drawing_tools_def
        hasPixels_def clear_pixel_def initialLayer_def)
qed

section \<open>Properties of extraction and removal\<close>

lemma length_invert_loop: "length (invert_loop i d) = length d"
  by (induction i d rule: invert_loop.induct) (subst invert_loop.simps, simp)

lemma nth_invert_loop_alpha:
  "4 dvd i \<Longrightarrow> j mod 4 = 3 \<Longrightarrow> invert_loop i d ! j = d ! j"
proof (induction i d rule: invert_loop.induct)
  case (1 i d)
  show ?case
  proof (cases "i < length d")
    case True
    have ne: "j \<noteq> i" "j \<noteq> i + 1" "j \<noteq> i + 2"
      using "1.prems" by presburger+
    have "4 dvd i + 4" using "1.prems"(1) by simp
    note IH = "1.IH" [OF True this "1.prems"(2)]
    show ?thesis
      using True IH ne by (subst invert_loop.simps) simp
  next
    case False
    then show ?thesis by (subst invert_loop.simps) simp
  qed
qed

lemma nth_canvas_read_alpha:
  "4 * k + 3 < length d \<Longrightarrow> canvas_read d ! (4 * k + 3) = d ! (4 * k + 3)"
proof (induction d arbitrary: k rule: canvas_read.induct)
  case (1 r g b a ps)
  show ?case
  proof (cases k)
    case 0
    then show ?thesis by simp
  next
    case (Suc j)
    have "4 * j + 3 < length ps"
      using "1.prems" Suc by simp
    from "1.IH" [OF this] show ?thesis
      using Suc by (simp add: nth_append add.commute)
  qed
qed simp_all

lemma alpha_invertMask:
  assumes "4 * k + 3 < length (data m)"
  shows "chan (invertMask m) k 3 = chan m k 3"
proof -
  have m: "(4 * k + 3) mod 4 = 3" by presburger
  have "canvas_read (invert_loop 0 (canvas_read (data m))) ! (4 * k + 3) =
      invert_loop 0 (canvas_read (data m)) ! (4 * k + 3)"
    using assms by (intro nth_canvas_read_alpha) (simp add: length_invert_loop length_canvas_read)
  also have "\<dots> = canvas_read (data m) ! (4 * k + 3)"
    using m by (intro nth_invert_loop_alpha) simp_all
  also have "\<dots> = data m ! (4 * k + 3)"
    using assms by (rule nth_canvas_read_alpha)
  finally show ?thesis
    by (simp add: chan_def invertMask_def loadImageData_def Let_def)
qed

lemma size_invertMask:
  "width (invertMask m) = width m" "height (invertMask m) = height m"
  "length (data (invertMask m)) = length (data m)"
  by (simp_all add: invertMask_def loadImageData_def Let_def length_invert_loop
      length_canvas_read)

lemma nth_composite_alpha:
  "4 * k + 3 < length d \<Longrightarrow> 4 * k + 3 < length s \<Longrightarrow>
   composite f d s ! (4 * k + 3) = f (d ! (4 * k + 3)) (s ! (4 * k + 3))"
proof (induction f d s arbitrary: k rule: composite.induct)
  case (1 f r g b a dst sr sg sb sa src)
  show ?case
  proof (cases k)
    case 0
    then show ?thesis by simp
  next
    case (Suc k')
    have "4 * k' + 3 < length dst" "4 * k' + 3 < length src"
      using "1.prems" Suc by simp_all
    from "1.IH" [OF this]
    have "composite f dst src ! (3 + 4 * k') = f (dst ! (3 + 4 * k')) (src ! (3 + 4 * k'))"
      by (simp add: add.commute)
    then show ?thesis
      using Suc by (simp add: nth_append)
  qed
qed simp_all

lemma mul255_full: "mul255 255 m = m"
  unfolding mul255_def by presburger

lemma unat_u8_le: "unat (x :: u8) \<le> 255"
proof -
  have "unat x < 2 ^ LENGTH(8)" by (rule unsigned_less)
  then show ?thesis by simp
qed

lemma unat_255_minus: "unat (255 - x :: u8) = 255 - unat x"
proof -
  have "x \<le> 255" using unat_u8_le [of x] by (simp add: word_le_nat_alt)
  then show ?thesis by (simp add: unat_sub)
qed

text \<open>
  Claim C3: for a fully opaque image and a mask of the same dimensions, at every pixel the
  alpha of the extracted image (\<^verbatim>\<open>applyMaskToImage\<close>, with or without inversion of the mask)
  plus the alpha of the image with the mask removed (\<^verbatim>\<open>removeMaskFromImage\<close>) is the alpha of
  the image.
\<close>

theorem extract_remove_alpha_complementary:
  assumes "wf_raster img" "opaque img" "same_size m img" "k < width img * height img"
  shows "unat (chan (applyMaskToImage resample img m invert) k 3) +
         unat (chan (removeMaskFromImage resample img m) k 3) = unat (chan img k 3)"
proof -
  let ?fm = "if invert then invertMask m else m"
  have sc: "scaled resample (width img) (height img) ?fm = ?fm"
    "scaled resample (width img) (height img) m = m"
    using assms(3) by (simp_all add: scaled_def same_size_def size_invertMask)
  have li: "4 * k + 3 < length (data img)"
    using assms(1,4) by (simp add: wf_raster_def)
  have lm: "4 * k + 3 < length (data m)" "4 * k + 3 < length (data ?fm)"
    using assms(3,4) by (simp_all add: same_size_def wf_raster_def size_invertMask)
  have a: "chan img k 3 = 255"
    using assms(2,4) by (simp add: opaque_def)
  have fm: "chan ?fm k 3 = chan m k 3"
    using lm(1) by (simp add: alpha_invertMask)
  have e: "chan (applyMaskToImage resample img m invert) k 3 =
      destination_in (chan img k 3) (chan m k 3)"
    using nth_composite_alpha [OF li lm(2), of destination_in] fm
    by (simp add: applyMaskToImage_def Let_def sc chan_def)
  have r: "chan (removeMaskFromImage resample img m) k 3 =
      destination_out (chan img k 3) (chan m k 3)"
    using nth_composite_alpha [OF li lm(1), of destination_out]
    by (simp add: removeMaskFromImage_def Let_def sc chan_def)
  have "unat (destination_in 255 x) + unat (destination_out 255 x) = 255" for x :: u8
    using unat_u8_le [of x]
    by (simp add: destination_in_def destination_out_def mul255_full unat_255_minus)
  then show ?thesis
    by (simp add: e r a)
qed

theorem extract_remove_alpha_complementary_witness:
  "unat (chan (applyMaskToImage no_resample opaque_pixel soft_mask_pixel False) 0 3) = 100 \<and>
   unat (chan (removeMaskFromImage no_resample opaque_pixel soft_mask_pixel) 0 3) = 155 \<and>
   unat (chan (applyMaskToImage no_resample opaque_pixel soft_mask_pixel False) 0 3) +
   unat (chan (removeMaskFromImage no_resample opaque_pixel soft_mask_pixel) 0 3) =
   unat (chan opaque_pixel 0 3)"
proof -
  have "unat (chan (applyMaskToImage no_resample opaque_pixel soft_mask_pixel False) 0 3) = 100"
    by (simp add: applyMaskToImage_def scaled_def opaque_pixel_def soft_mask_pixel_def chan_def
        destination_in_def mul255_def)
  then show ?thesis
    using extract_remove_alpha_complementary [of opaque_pixel soft_mask_pixel 0 no_resample False]
    by (simp add: wf_raster_def opaque_def same_size_def opaque_pixel_def soft_mask_pixel_def
        chan_def)
qed

section \<open>Properties of reordering\<close>

lemma mset_js_insert: "mset (js_insert cmp x xs) = add_mset x (mset xs)"
  by (induction xs) simp_all

lemma mset_js_sort: "mset (js_sort cmp xs) = mset xs"
  unfolding js_sort_def by (induction xs) (simp_all add: mset_js_insert)

lemma index_of_less: "y \<in> set xs \<Longrightarrow> index_of xs y < length xs"
  by (induction xs) auto

lemma map_index_of_distinct: "distinct xs \<Longrightarrow> map (index_of xs) xs = [0..<length xs]"
proof (induction xs)
  case Nil
  then show ?case by simp
next
  case (Cons x xs)
  have "map (index_of (x # xs)) xs = map (Suc \<circ> index_of xs) xs"
    using Cons.prems by (intro map_cong) auto
  also have "\<dots> = map Suc [0..<length xs]"
    using Cons by (simp flip: map_map)
  finally have h: "map (index_of (x # xs)) xs = map Suc [0..<length xs]" .
  have "map (index_of (x # xs)) (x # xs) = 0 # map (index_of (x # xs)) xs"
    by simp
  also have "\<dots> = 0 # map Suc [0..<length xs]"
    by (simp only: h)
  also have "\<dots> = [0..<length (x # xs)]"
    by (simp add: upt_conv_Cons map_Suc_upt del: upt_Suc)
  finally show ?case .
qed

lemma drop_updates_all_some:
  "distinct (map layer_id its) \<Longrightarrow>
   drop_updates (map Some its) i n state =
     (state\<lparr>layers := map (\<lambda>l. if layer_id l \<in> set (map layer_id its)
                                then l\<lparr>order := Some (int n - 1 -
                                        int (i + index_of (map layer_id its) (layer_id l)))\<rparr>
                                else l) (layers state),
             hasUnsavedChanges := (its \<noteq> [] \<or> hasUnsavedChanges state)\<rparr>, None)"
proof (induction its arbitrary: i state)
  case Nil
  then show ?case by simp
next
  case (Cons x xs)
  let ?st1 = "updateLayer (layer_id x) (\<lambda>l. l\<lparr>order := Some (int n - 1 - int i)\<rparr>) state"
  have d: "distinct (map layer_id xs)" and nx: "layer_id x \<notin> set (map layer_id xs)"
    using Cons.prems by simp_all
  have "drop_updates (map Some (x # xs)) i n state = drop_updates (map Some xs) (i + 1) n ?st1"
    by simp
  also note Cons.IH [OF d, of "i + 1" ?st1]
  finally show ?case
    using nx by (auto simp: updateLayer_def intro!: map_cong)
qed

lemma splice_remove_one:
  assumes "0 \<le> d" "d < int (length xs)"
  shows "splice d 1 [] xs = ([xs ! nat d], take (nat d) xs @ drop (Suc (nat d)) xs)"
proof -
  have s: "actual_start d (length xs) = nat d"
    using assms by (simp add: actual_start_def)
  have lt: "nat d < length xs" using assms by linarith
  then have c: "min (Suc 0) (length xs - nat d) = Suc 0" by simp
  have "take (Suc 0) (drop (nat d) xs) = [xs ! nat d]"
    using lt by (simp add: take_Suc hd_drop_conv_nth)
  then show ?thesis
    by (simp add: splice_def Let_def s c)
qed

lemma splice_insert_one:
  "splice i 0 [y] ys =
     ([], take (actual_start i (length ys)) ys @ [y] @ drop (actual_start i (length ys)) ys)"
  by (simp add: splice_def Let_def)

lemma mset_remove_insert:
  assumes "s < length xs"
  shows "mset (take t (take s xs @ drop (Suc s) xs) @ [xs ! s] @
                drop t (take s xs @ drop (Suc s) xs)) = mset xs"
proof -
  let ?r = "take s xs @ drop (Suc s) xs"
  have "mset (take t ?r @ [xs ! s] @ drop t ?r) = add_mset (xs ! s) (mset (take t ?r @ drop t ?r))"
    by simp
  also have "\<dots> = add_mset (xs ! s) (mset ?r)"
    by (simp only: append_take_drop_id)
  also have "\<dots> = mset (take s xs @ xs ! s # drop (Suc s) xs)"
    by simp
  also have "\<dots> = mset xs"
    using id_take_nth_drop [OF assms] by simp
  finally show ?thesis .
qed

lemma orders_after_renumbering:
  assumes "distinct (map layer_id ls)" "mset its = mset ls"
  shows "mset (map (\<lambda>l. Some (int (length ls) - 1 -
                         int (index_of (map layer_id its) (layer_id l)))) ls) =
         mset (map (\<lambda>p. Some (int (length ls) - 1 - int p)) [0..<length ls])"
proof -
  let ?ids = "map layer_id its"
  let ?f = "\<lambda>p. Some (int (length ls) - 1 - int p)"
  have ids: "mset ?ids = mset (map layer_id ls)"
    using assms(2) by simp
  then have d: "distinct ?ids"
    using assms(1) by (metis mset_eq_imp_distinct_iff)
  have len: "length its = length ls"
    using assms(2) by (metis size_mset)
  have "mset (map (\<lambda>l. ?f (index_of ?ids (layer_id l))) ls) =
        image_mset (\<lambda>j. ?f (index_of ?ids j)) (mset (map layer_id ls))"
    by (simp add: image_mset.compositionality comp_def)
  also have "\<dots> = image_mset (\<lambda>j. ?f (index_of ?ids j)) (mset ?ids)"
    by (simp only: ids)
  also have "\<dots> = mset (map ?f (map (index_of ?ids) ?ids))"
    by (simp add: image_mset.compositionality comp_def)
  also have "\<dots> = mset (map ?f [0..<length ls])"
    using map_index_of_distinct [OF d] len by simp
  finally show ?thesis .
qed

lemma contiguous_orders:
  assumes "mset os = mset (map (\<lambda>p. Some (int n - 1 - int p)) [0..<n])"
  shows "distinct os \<and> set os = (\<lambda>p. Some (int p)) ` {0..<n}"
proof -
  let ?f = "\<lambda>p. Some (int n - 1 - int p)"
  have inj: "inj_on ?f {0..<n}"
    by (auto simp: inj_on_def)
  have "distinct (map ?f [0..<n])"
    using inj by (simp add: distinct_map)
  then have d: "distinct os"
    using assms by (metis mset_eq_imp_distinct_iff)
  have "set os = ?f ` {0..<n}"
    using mset_eq_setD [OF assms] by simp
  also have "\<dots> = (\<lambda>p. Some (int p)) ` {0..<n}"
  proof (intro equalityI subsetI)
    fix v assume "v \<in> ?f ` {0..<n}"
    then obtain p where p: "p < n" "v = Some (int n - 1 - int p)" by auto
    then have "v = Some (int (n - 1 - p))" by (simp add: of_nat_diff)
    moreover have "n - 1 - p \<in> {0..<n}" using p by simp
    ultimately show "v \<in> (\<lambda>p. Some (int p)) ` {0..<n}" by blast
  next
    fix v assume "v \<in> (\<lambda>p. Some (int p)) ` {0..<n}"
    then obtain p where p: "p < n" "v = Some (int p)" by auto
    then have "v = ?f (n - 1 - p)" by (simp add: of_nat_diff)
    moreover have "n - 1 - p \<in> {0..<n}" using p by simp
    ultimately show "v \<in> ?f ` {0..<n}" by blast
  qed
  finally show ?thesis using d by simp
qed

lemma length_splice_insert: "length (snd (splice i 0 [y] ys)) = Suc (length ys)"
proof -
  let ?t = "actual_start i (length ys)"
  have "length (take ?t ys @ [y] @ drop ?t ys) = Suc (length (take ?t ys @ drop ?t ys))"
    by simp
  then show ?thesis
    by (simp only: splice_insert_one snd_conv append_take_drop_id)
qed

lemma length_remove_nth: "s < length xs \<Longrightarrow> Suc (length (take s xs @ drop (Suc s) xs)) = length xs"
  by (simp add: min_def)

lemma orders_zip_index:
  "map order (map (\<lambda>(l, i). (spread_obj l)\<lparr>order := Some (int i)\<rparr>) (zip xs [0..<length xs]))
     = map (\<lambda>i. Some (int i)) [0..<length xs]"
proof -
  have a: "map snd (zip xs [0..<length xs]) = [0..<length xs]"
    by (rule map_snd_zip) simp
  have "map order (map (\<lambda>(l, i). (spread_obj l)\<lparr>order := Some (int i)\<rparr>) (zip xs [0..<length xs]))
      = map ((\<lambda>i. Some (int i)) \<circ> snd) (zip xs [0..<length xs])"
    by (simp add: case_prod_unfold comp_def)
  also have "\<dots> = map (\<lambda>i. Some (int i)) (map snd (zip xs [0..<length xs]))"
    by (simp only: map_map)
  finally show ?thesis by (simp only: a)
qed

lemma orders_reorderLayers:
  "map order (layers (reorderLayers startIndex endIndex state)) =
   map (\<lambda>i. Some (int i)) [0..<length (layers (reorderLayers startIndex endIndex state))]"
  using orders_zip_index by (simp add: reorderLayers_def Let_def case_prod_unfold)

lemma length_reorderLayers:
  assumes "0 \<le> startIndex" "startIndex < int (length (layers state))"
  shows "length (layers (reorderLayers startIndex endIndex state)) = length (layers state)"
proof -
  have lt: "nat startIndex < length (map Some (layers state))" using assms by simp
  have r: "splice startIndex 1 [] (map Some (layers state)) =
      ([map Some (layers state) ! nat startIndex],
       take (nat startIndex) (map Some (layers state)) @
       drop (Suc (nat startIndex)) (map Some (layers state)))"
    using assms by (intro splice_remove_one) simp_all
  have "length (layers (reorderLayers startIndex endIndex state)) =
      length (snd (splice endIndex 0 [first_or_undefined (fst (splice startIndex 1 [] (map Some (layers state))))]
                (snd (splice startIndex 1 [] (map Some (layers state))))))"
    by (simp add: reorderLayers_def Let_def case_prod_unfold)
  also have "\<dots> = Suc (length (snd (splice startIndex 1 [] (map Some (layers state)))))"
    by (rule length_splice_insert)
  also have "\<dots> = length (map Some (layers state))"
    unfolding r snd_conv by (rule length_remove_nth [OF lt])
  finally show ?thesis by simp
qed

lemma splice_insert_some:
  "splice i 0 [Some y] (map Some r) =
     ([], map Some (take (actual_start i (length r)) r @ [y] @
                    drop (actual_start i (length r)) r))"
  by (simp add: splice_insert_one take_map drop_map)

lemma handleDrop_in_range:
  assumes "distinct (map layer_id (layers state))"
    and "0 \<le> dragged" "dragged < int (length (layers state))" "dragged \<noteq> index"
  shows "\<exists>its. mset its = mset (layers state) \<and>
           handleDrop (Some dragged) index state =
             (state\<lparr>layers := map (\<lambda>l. l\<lparr>order := Some (int (length (layers state)) - 1 -
                                         int (index_of (map layer_id its) (layer_id l)))\<rparr>)
                                  (layers state),
                     hasUnsavedChanges := True\<rparr>, None)"
proof -
  let ?sl = "sortedLayers state"
  let ?s = "nat dragged"
  let ?r = "take ?s ?sl @ drop (Suc ?s) ?sl"
  let ?t = "actual_start index (length ?r)"
  let ?its = "take ?t ?r @ [?sl ! ?s] @ drop ?t ?r"
  have msl: "mset ?sl = mset (layers state)"
    by (simp add: sortedLayers_def mset_js_sort)
  then have len: "length ?sl = length (layers state)"
    by (metis size_mset)
  have lt: "?s < length ?sl" using assms(2,3) len by linarith
  have rm: "splice dragged 1 [] (map Some ?sl) = ([Some (?sl ! ?s)], map Some ?r)"
    using splice_remove_one [of dragged "map Some ?sl"] assms(2,3) len lt
    by (simp add: take_map drop_map)
  have ins: "splice index 0 [Some (?sl ! ?s)] (map Some ?r) = ([], map Some ?its)"
    by (rule splice_insert_some)
  have mits: "mset ?its = mset (layers state)"
    using mset_remove_insert [OF lt, of ?t] msl by simp
  then have lits: "length ?its = length (layers state)"
    by (metis size_mset)
  have dits: "distinct (map layer_id ?its)"
    using assms(1) mits by (metis mset_eq_imp_distinct_iff mset_map)
  have sits: "set (map layer_id ?its) = set (map layer_id (layers state))"
    using mits by (metis mset_eq_setD mset_map)
  have ne: "?its \<noteq> []" by simp
  have fou: "first_or_undefined [Some (?sl ! ?s)] = Some (?sl ! ?s)"
    by (simp add: first_or_undefined_def)
  have neq: "(dragged = index) = False"
    using assms(4) by simp
  have "handleDrop (Some dragged) index state =
      drop_updates (map Some ?its) 0 (length (map Some ?its)) state"
    by (simp only: handleDrop_def option.case neq if_False Let_def rm prod.case fou ins)
  also have "\<dots> = (state\<lparr>layers := map (\<lambda>l. if layer_id l \<in> set (map layer_id ?its)
                                then l\<lparr>order := Some (int (length (layers state)) - 1 -
                                        int (0 + index_of (map layer_id ?its) (layer_id l)))\<rparr>
                                else l) (layers state),
             hasUnsavedChanges := (?its \<noteq> [] \<or> hasUnsavedChanges state)\<rparr>, None)"
    using drop_updates_all_some [OF dits, of 0 "length (layers state)" state] lits
    by (simp only: length_map)
  finally have h: "handleDrop (Some dragged) index state =
      (state\<lparr>layers := map (\<lambda>l. if layer_id l \<in> set (map layer_id ?its)
                                then l\<lparr>order := Some (int (length (layers state)) - 1 -
                                        int (0 + index_of (map layer_id ?its) (layer_id l)))\<rparr>
                                else l) (layers state),
             hasUnsavedChanges := (?its \<noteq> [] \<or> hasUnsavedChanges state)\<rparr>, None)" .
  have mem: "layer_id l \<in> set (map layer_id ?its)" if "l \<in> set (layers state)" for l
    unfolding sits using that by simp
  have mg: "map (\<lambda>l. if layer_id l \<in> set (map layer_id ?its)
                                then l\<lparr>order := Some (int (length (layers state)) - 1 -
                                        int (0 + index_of (map layer_id ?its) (layer_id l)))\<rparr>
                                else l) (layers state) =
      map (\<lambda>l. l\<lparr>order := Some (int (length (layers state)) - 1 -
                                         int (index_of (map layer_id ?its) (layer_id l)))\<rparr>)
                                  (layers state)"
    by (rule map_cong [OF refl]) (simp only: mem if_True add_0)
  have tr: "(?its \<noteq> [] \<or> hasUnsavedChanges state) = True"
    using ne by simp
  have "handleDrop (Some dragged) index state =
      (state\<lparr>layers := map (\<lambda>l. l\<lparr>order := Some (int (length (layers state)) - 1 -
                                         int (index_of (map layer_id ?its) (layer_id l)))\<rparr>)
                                  (layers state),
                     hasUnsavedChanges := True\<rparr>, None)"
    unfolding h by (simp only: mg tr)
  then show ?thesis using mits by blast

qed

text \<open>
  Claim C10: after \<^verbatim>\<open>reorderLayers\<close>, for all arguments, the layer at position \<open>i\<close> of the
  store has the order \<open>i\<close>, so the orders of the \<open>n\<close> layers in the store are 0, \<dots>, n - 1
  whatever they were before (and the number of layers is unchanged when the start index is
  one of the list). After a drop in the layer panel that moves a layer (the dragged index is
  one of the list and differs from the target index), in a store whose layers have distinct
  ids, no error is thrown, the number of layers is unchanged, and the orders of the layers
  are pairwise distinct and are exactly the integers 0, \<dots>, n - 1.
\<close>

theorem reorder_gives_contiguous_orders:
  "map order (layers (reorderLayers startIndex endIndex state)) =
     map (\<lambda>i. Some (int i)) [0..<length (layers (reorderLayers startIndex endIndex state))] \<and>
   (0 \<le> startIndex \<and> startIndex < int (length (layers state)) \<longrightarrow>
      length (layers (reorderLayers startIndex endIndex state)) = length (layers state)) \<and>
   (distinct (map layer_id (layers state)) \<and> 0 \<le> dragged \<and>
    dragged < int (length (layers state)) \<and> dragged \<noteq> index \<longrightarrow>
      snd (handleDrop (Some dragged) index state) = None \<and>
      length (layers (fst (handleDrop (Some dragged) index state))) = length (layers state) \<and>
      distinct (map order (layers (fst (handleDrop (Some dragged) index state)))) \<and>
      set (map order (layers (fst (handleDrop (Some dragged) index state)))) =
        (\<lambda>p. Some (int p)) ` {0..<length (layers state)})"
proof (intro conjI impI)
  show "map order (layers (reorderLayers startIndex endIndex state)) =
     map (\<lambda>i. Some (int i)) [0..<length (layers (reorderLayers startIndex endIndex state))]"
    by (rule orders_reorderLayers)
next
  assume "0 \<le> startIndex \<and> startIndex < int (length (layers state))"
  then show "length (layers (reorderLayers startIndex endIndex state)) = length (layers state)"
    by (simp add: length_reorderLayers)
next
  assume a: "distinct (map layer_id (layers state)) \<and> 0 \<le> dragged \<and>
    dragged < int (length (layers state)) \<and> dragged \<noteq> index"
  then obtain its where its: "mset its = mset (layers state)"
    and h: "handleDrop (Some dragged) index state =
             (state\<lparr>layers := map (\<lambda>l. l\<lparr>order := Some (int (length (layers state)) - 1 -
                                         int (index_of (map layer_id its) (layer_id l)))\<rparr>)
                                  (layers state),
                     hasUnsavedChanges := True\<rparr>, None)"
    using handleDrop_in_range [of state dragged index] by blast
  have os: "map order (layers (fst (handleDrop (Some dragged) index state))) =
      map (\<lambda>l. Some (int (length (layers state)) - 1 -
                         int (index_of (map layer_id its) (layer_id l)))) (layers state)"
    by (simp add: h comp_def)
  have c: "distinct (map order (layers (fst (handleDrop (Some dragged) index state)))) \<and>
      set (map order (layers (fst (handleDrop (Some dragged) index state)))) =
        (\<lambda>p. Some (int p)) ` {0..<length (layers state)}"
    unfolding os using a its by (intro contiguous_orders orders_after_renumbering) simp_all
  show "snd (handleDrop (Some dragged) index state) = None" by (simp add: h)
  show "length (layers (fst (handleDrop (Some dragged) index state))) = length (layers state)"
    by (simp add: h)
  show "distinct (map order (layers (fst (handleDrop (Some dragged) index state))))"
    using c by simp
  show "set (map order (layers (fst (handleDrop (Some dragged) index state)))) =
        (\<lambda>p. Some (int p)) ` {0..<length (layers state)}"
    using c by simp
qed

theorem reorder_gives_contiguous_orders_witness:
  "map order (layers (reorderLayers 0 2 store_gaps)) = [Some 0, Some 1, Some 2] \<and>
   length (layers (reorderLayers 0 2 store_gaps)) = length (layers store_gaps) \<and>
   map order (layers (fst (handleDrop (Some 0) 2 store_gaps))) = [Some 1, Some 0, Some 2] \<and>
   snd (handleDrop (Some 0) 2 store_gaps) = None \<and>
   set (map order (layers (fst (handleDrop (Some 0) 2 store_gaps)))) =
     (\<lambda>p. Some (int p)) ` {0..<length (layers store_gaps)}"
proof -
  have sl: "sortedLayers store_gaps =
     [image_layer ''layer-y'' ''Y'' (Some white_pixel) True (Some 9),
      image_layer ''layer-z'' ''Z'' None False (Some 7),
      image_layer ''layer-x'' ''X'' (Some white_pixel) True (Some 5)]"
    by (simp add: store_gaps_def sortedLayers_def js_sort_def by_order_desc_def
        js_sub_def num_or_zero_def image_layer_def)
  have d: "map order (layers (fst (handleDrop (Some 0) 2 store_gaps))) = [Some 1, Some 0, Some 2]"
    by (simp add: handleDrop_def sl splice_def actual_start_def first_or_undefined_def Let_def)
      (simp add: updateLayer_def store_gaps_def image_layer_def)
  have hyp: "distinct (map layer_id (layers store_gaps))" "length (layers store_gaps) = 3"
    by (simp_all add: store_gaps_def image_layer_def)
  note t = reorder_gives_contiguous_orders [of 0 2 store_gaps 0 2]
  from t hyp have l: "length (layers (reorderLayers 0 2 store_gaps)) = 3"
    by simp
  have u: "map (\<lambda>i. Some (int i)) [0..<3] = [Some 0, Some 1, Some 2]"
    by (simp add: upt_rec)
  from t have "map order (layers (reorderLayers 0 2 store_gaps)) =
      map (\<lambda>i. Some (int i)) [0..<length (layers (reorderLayers 0 2 store_gaps))]"
    by (rule conjunct1)
  then have o: "map order (layers (reorderLayers 0 2 store_gaps)) = [Some 0, Some 1, Some 2]"
    by (simp only: l u)
  from t hyp have s: "snd (handleDrop (Some 0) 2 store_gaps) = None \<and>
      set (map order (layers (fst (handleDrop (Some 0) 2 store_gaps)))) =
        (\<lambda>p. Some (int p)) ` {0..<length (layers store_gaps)}"
    by simp
  show ?thesis
    using l o d s hyp by simp
qed

end
